theory Spec2Isabelle
  imports Complex_Main
begin

section \<open>Python values\<close>

text \<open>
  The notebook \<^verbatim>\<open>GPS Data Generation\<close> raises no exception of its own; every failure
  comes from Python or pandas. The ones that a run of the modelled cells can meet are
  values of \<open>error\<close>: a division by zero and an oversized quotient (from \<^verbatim>\<open>/\<close>), a label
  that is not in a frame (from \<^verbatim>\<open>.loc\<close>), a position that is not in a frame (from
  \<^verbatim>\<open>.iloc\<close>), \<^verbatim>\<open>Series.item()\<close> on a series whose length is not one, a name that
  is bound nowhere, and an object of a kind that an operation does not take.
\<close>

datatype error =
  ZeroDivisionError | OverflowError | KeyError | ValueError | IndexError | NameError | TypeError

text \<open>
  One step after another, the first exception ending the sequence.
\<close>

definition and_then :: "error + 'a \<Rightarrow> ('a \<Rightarrow> error + 'b) \<Rightarrow> error + 'b" where
  "and_then m f = (case m of Inl e \<Rightarrow> Inl e | Inr x \<Rightarrow> f x)"

text \<open>\<^verbatim>\<open>range(n)\<close>: the integers from 0 up to \<open>n - 1\<close>, none for \<open>n \<le> 0\<close>.\<close>

definition py_range :: "int \<Rightarrow> int list" where
  "py_range n = [0..n - 1]"

subsection \<open>Floats\<close>

text \<open>
  A finite Python float is a binary64 number, hence a rational; the model keeps floats
  as \<open>rat\<close> and writes the rounding out. \<open>fl x\<close> is the binary64 number nearest to
  \<open>x\<close>, ties to the even significand, subnormal below \<open>2 ^ - 1022\<close>; it is what an
  arithmetic operation returns when its exact result is \<open>x\<close>. The exponent is not
  bounded above in \<open>fl\<close>: the one operation of the notebook that can leave the range,
  \<^verbatim>\<open>/\<close> on two integers, checks its result in \<open>truediv\<close>.

  \<open>bit_length\<close> is Python's \<^verbatim>\<open>int.bit_length\<close>; \<open>ilog2 x\<close> is the exponent \<open>e\<close> with
  \<open>2 ^ e \<le> x < 2 ^ (e + 1)\<close> of a positive \<open>x\<close>.
\<close>

fun bit_length :: "nat \<Rightarrow> nat" where
  "bit_length n = (if n = 0 then 0 else Suc (bit_length (n div 2)))"

declare bit_length.simps [simp del]

definition ilog2 :: "rat \<Rightarrow> int" where
  "ilog2 x = (if 1 \<le> x then int (bit_length (nat \<lfloor>x\<rfloor>)) - 1
              else - int (bit_length (nat \<lceil>1 / x\<rceil> - 1)))"

definition round_half_even :: "rat \<Rightarrow> int" where
  "round_half_even x =
     (let f = \<lfloor>x\<rfloor>; d = x - of_int f
      in if d < 1 / 2 then f
         else if 1 / 2 < d then f + 1
         else if even f then f else f + 1)"

definition ulp :: "rat \<Rightarrow> rat" where
  "ulp x = power_int 2 (max (ilog2 x) (- 1022) - 52)"

definition fl :: "rat \<Rightarrow> rat" where
  "fl x = (if x = 0 then 0
           else sgn x * (of_int (round_half_even (\<bar>x\<bar> / ulp \<bar>x\<bar>)) * ulp \<bar>x\<bar>))"

text \<open>
  \<^verbatim>\<open>a / b\<close> on two non-negative Python integers (here always two row counts,
  \<^verbatim>\<open>shape[0]\<close>): the correctly rounded quotient, \<^verbatim>\<open>ZeroDivisionError\<close> for a zero
  divisor, \<^verbatim>\<open>OverflowError\<close> when the quotient is too large for a float.
\<close>

definition truediv :: "nat \<Rightarrow> nat \<Rightarrow> error + rat" where
  "truediv a b =
     (if b = 0 then Inl ZeroDivisionError
      else let q = fl (of_nat a / of_nat b)
           in if 2 ^ 1024 \<le> q then Inl OverflowError else Inr q)"

text \<open>Float addition, for sums of computed proportions.\<close>

definition float_add :: "rat \<Rightarrow> rat \<Rightarrow> rat" where
  "float_add x y = fl (x + y)"

section \<open>Frames\<close>

text \<open>
  A pandas frame is the list of its rows. Every frame of the notebook carries the
  default index \<open>0, 1, \<dots>\<close> when the modelled code runs: \<open>seattle_rent\<close> comes from
  \<^verbatim>\<open>read_csv\<close>, and \<open>yelp\<close> and \<open>gps_df\<close> are re-indexed with \<^verbatim>\<open>reset_index\<close> after
  their rows without neighborhood are dropped. So the label of a row is its position,
  and \<^verbatim>\<open>.loc\<close> and \<^verbatim>\<open>.iloc\<close> address rows alike.

  A column with a fixed name is a field of the row. The columns whose names are built
  by an f-string are a finite map from the interpolated values to the cell:
  \<open>tier_dollar r t\<close> is the cell of column \<^verbatim>\<open>f"{t} dollar"\<close> in a row of \<open>seattle_rent\<close>, and
  \<open>radius_dollar r (radius, t)\<close> the cell of column \<^verbatim>\<open>f"{radius}mi {t} dollar"\<close> in a
  row of \<open>gps_df\<close>; \<open>None\<close> says that the frame has no such column. A cell of these
  columns holds a number, or the NaN that pandas puts where nothing was assigned.
\<close>

datatype cell = Number rat | NaN

record yelp_row =
  cra :: string
  price :: int
  latitude :: rat
  longitude :: rat

record seattle_row =
  neighborhood :: string
  median_rent :: rat
  median_home_value :: rat
  median_income :: rat
  tier_dollar :: "int \<rightharpoonup> cell"

record gps_row =
  gps_latitude :: rat
  gps_longitude :: rat
  gps_neighborhood :: string
  radius_dollar :: "rat \<times> int \<rightharpoonup> cell"
  gps_median_income :: rat
  gps_median_rent :: rat
  gps_median_home_value :: rat

text \<open>
  \<^verbatim>\<open>df.loc[i, [column]]\<close> read at a row label: \<^verbatim>\<open>KeyError\<close> when the label is not
  in the index.
\<close>

definition loc_row :: "'a list \<Rightarrow> nat \<Rightarrow> error + 'a" where
  "loc_row df i = (if i < length df then Inr (df ! i) else Inl KeyError)"

text \<open>
  \<^verbatim>\<open>Series.item()\<close>: the only element of a series of length one, \<^verbatim>\<open>ValueError\<close>
  for any other length.
\<close>

fun item :: "'a list \<Rightarrow> error + 'a" where
  "item [x] = Inr x"
| "item xs = Inl ValueError"

text \<open>
  A \<^verbatim>\<open>for\<close> loop over a list whose body updates a state and may raise: the first
  exception ends the loop.
\<close>

fun for_each :: "'a list \<Rightarrow> ('a \<Rightarrow> 's \<Rightarrow> error + 's) \<Rightarrow> 's \<Rightarrow> error + 's" where
  "for_each [] body s = Inr s"
| "for_each (x # xs) body s =
     (case body x s of Inl e \<Rightarrow> Inl e | Inr s' \<Rightarrow> for_each xs body s')"

section \<open>Neighborhood proportions: \<open>dollar_rating\<close>\<close>

text \<open>
  \<^verbatim>\<open>seattle_df.loc[hood_index, [f"{dollar_tier} dollar"]] = proportion\<close>, with
  \<open>hood_index\<close> a list of row labels of the frame: the cell of the column is set in each
  listed row. A column that the frame does not have is added by the assignment, with
  the value in the listed rows and NaN in the others (pandas 1.1 and later; older
  versions raised \<^verbatim>\<open>KeyError\<close> there). The notebook creates its columns before
  it assigns to them.
\<close>

definition loc_set_dollar ::
  "seattle_row list \<Rightarrow> nat list \<Rightarrow> int \<Rightarrow> rat \<Rightarrow> seattle_row list" where
  "loc_set_dollar seattle_df hood_index dollar_tier proportion =
     map (\<lambda>i. if i \<in> set hood_index
              then (seattle_df ! i)
                     \<lparr>tier_dollar := (tier_dollar (seattle_df ! i))(dollar_tier \<mapsto> Number proportion)\<rparr>
              else if tier_dollar (seattle_df ! i) dollar_tier = None
              then (seattle_df ! i)
                     \<lparr>tier_dollar := (tier_dollar (seattle_df ! i))(dollar_tier \<mapsto> NaN)\<rparr>
              else seattle_df ! i)
       [0..<length seattle_df]"

text \<open>
  \<open>dollar_rating\<close> changes \<open>seattle_df\<close> in place and returns nothing; the model returns
  both frames as they are after the call.
\<close>

definition dollar_rating ::
  "seattle_row list \<Rightarrow> yelp_row list \<Rightarrow> string \<Rightarrow> int
     \<Rightarrow> error + (seattle_row list \<times> yelp_row list)" where
  "dollar_rating seattle_df yelp_df nbhd dollar_tier =
     (let yelp_hood = filter (\<lambda>r. cra r = nbhd) yelp_df;
          proportion =
            (if length (filter (\<lambda>r. cra r = nbhd) yelp_df) = 0 then Inr 0
             else let num_businesses = length (filter (\<lambda>r. cra r = nbhd) yelp_df)
                  in truediv (length (filter (\<lambda>r. price r = dollar_tier) yelp_hood))
                       num_businesses)
      in case proportion of
           Inl e \<Rightarrow> Inl e
         | Inr p \<Rightarrow>
             (let hood_index =
                    filter (\<lambda>i. neighborhood (seattle_df ! i) = nbhd) [0..<length seattle_df]
              in Inr (loc_set_dollar seattle_df hood_index dollar_tier p, yelp_df)))"

section \<open>Proportions around a point: \<open>radius_dollar_proportion\<close>\<close>

text \<open>
  \<^verbatim>\<open>d.distance(location, coordinates).miles\<close> is geopy's distance between two
  (latitude, longitude) pairs, in miles. geopy is not part of the repository: the
  distance is a parameter of the model, a total function on coordinate pairs. What
  geopy does with a coordinate that it rejects (a latitude beyond 90 degrees) is outside
  the model.
\<close>

type_synonym coordinate = "rat \<times> rat"

type_synonym distance = "coordinate \<Rightarrow> coordinate \<Rightarrow> rat"

text \<open>
  The loop \<^verbatim>\<open>for i in range(length)\<close> of \<open>radius_dollar_proportion\<close>, from counter \<open>i\<close>
  on, with the list \<open>indices\<close> collected so far.
\<close>

function radius_scan ::
  "distance \<Rightarrow> coordinate \<Rightarrow> yelp_row list \<Rightarrow> rat \<Rightarrow> nat \<Rightarrow> nat list \<Rightarrow> nat list" where
  "radius_scan miles location df radius i indices =
     (if i < length df
      then (if miles location (latitude (df ! i), longitude (df ! i)) \<le> radius
            then radius_scan miles location df radius (Suc i) (indices @ [i])
            else radius_scan miles location df radius (Suc i) indices)
      else indices)"
  by pat_completeness auto
termination
  by (relation "measure (\<lambda>(miles, location, df, radius, i, indices). length df - i)") auto

declare radius_scan.simps [simp del]

definition radius_dollar_proportion ::
  "distance \<Rightarrow> coordinate \<Rightarrow> yelp_row list \<Rightarrow> rat \<Rightarrow> int \<Rightarrow> error + rat" where
  "radius_dollar_proportion miles location df radius dollar_tier =
     (let indices = radius_scan miles location df radius 0 []
      in if length indices = 0 then Inr 0
         else let surrounding_businesses = map (\<lambda>i. df ! i) indices;
                  total_businesses = length surrounding_businesses
              in truediv
                   (length (filter (\<lambda>r. price r = dollar_tier) surrounding_businesses))
                   total_businesses)"

text \<open>
  The businesses within \<open>radius\<close> of \<open>location\<close>, as the frame lists them: the rows
  that the loop is meant to select.
\<close>

definition records_within ::
  "distance \<Rightarrow> coordinate \<Rightarrow> yelp_row list \<Rightarrow> rat \<Rightarrow> yelp_row list" where
  "records_within miles location df radius =
     filter (\<lambda>r. miles location (latitude r, longitude r) \<le> radius) df"

text \<open>
  The sum of the four proportions around a point, tiers 1 to 4: \<open>proportion_sum\<close> adds
  the four computed floats exactly, \<open>proportion_float_sum\<close> adds them as Python does,
  left to right with a rounding after each addition.
\<close>

definition proportion_sum ::
  "distance \<Rightarrow> coordinate \<Rightarrow> yelp_row list \<Rightarrow> rat \<Rightarrow> error + rat" where
  "proportion_sum miles location df radius =
     for_each [1, 2, 3, 4]
       (\<lambda>t acc. case radius_dollar_proportion miles location df radius t of
                   Inl e \<Rightarrow> Inl e | Inr p \<Rightarrow> Inr (acc + p))
       0"

definition proportion_float_sum ::
  "distance \<Rightarrow> coordinate \<Rightarrow> yelp_row list \<Rightarrow> rat \<Rightarrow> error + rat" where
  "proportion_float_sum miles location df radius =
     for_each [1, 2, 3, 4]
       (\<lambda>t acc. case radius_dollar_proportion miles location df radius t of
                   Inl e \<Rightarrow> Inl e | Inr p \<Rightarrow> Inr (float_add acc p))
       0"

section \<open>The notebook's cells\<close>

text \<open>
  The global frames that the cells read and update. A cell is a
  function from the state of the notebook to the state after it, or to the exception
  that ended it: the notebook is run top to bottom, and after an exception no later
  cell runs, so nothing is exported.
\<close>

record notebook =
  yelp :: "yelp_row list"
  seattle_rent :: "seattle_row list"
  gps_df :: "gps_row list"

subsection \<open>The metric population loop\<close>

text \<open>
  \<^verbatim>\<open>gps_df.loc[i, [f"{radius}mi {dollar} dollar"]] = value\<close>, for a row label \<open>i\<close> that
  the frame has: the cell of row \<open>i\<close> is set. A column that the frame does not have is
  added by the assignment, with NaN in the other rows.
\<close>

definition loc_set_radius_dollar ::
  "gps_row list \<Rightarrow> nat \<Rightarrow> rat \<times> int \<Rightarrow> rat \<Rightarrow> gps_row list" where
  "loc_set_radius_dollar df i column v =
     map (\<lambda>j. if j = i
              then (df ! j)\<lparr>radius_dollar := (radius_dollar (df ! j))(column \<mapsto> Number v)\<rparr>
              else if radius_dollar (df ! j) column = None
              then (df ! j)\<lparr>radius_dollar := (radius_dollar (df ! j))(column \<mapsto> NaN)\<rparr>
              else df ! j)
       [0..<length df]"

text \<open>
  The body of the innermost loop. The point's coordinates are read first, so a label
  outside the frame ends the step before anything is assigned.
\<close>

definition metric_step :: "distance \<Rightarrow> nat \<Rightarrow> int \<Rightarrow> rat \<Rightarrow> notebook \<Rightarrow> error + notebook" where
  "metric_step miles i dollar radius nb =
     (case loc_row (gps_df nb) i of
        Inl e \<Rightarrow> Inl e
      | Inr row \<Rightarrow>
          (let location = (gps_latitude row, gps_longitude row)
           in case radius_dollar_proportion miles location (yelp nb) radius dollar of
                Inl e \<Rightarrow> Inl e
              | Inr p \<Rightarrow>
                  Inr (nb\<lparr>gps_df := loc_set_radius_dollar (gps_df nb) i (radius, dollar) p\<rparr>)))"

definition populate_metrics :: "distance \<Rightarrow> notebook \<Rightarrow> error + notebook" where
  "populate_metrics miles nb =
     for_each [0..<length (gps_df nb)]
       (\<lambda>i. for_each [1, 2, 3, 4]
          (\<lambda>dollar. for_each [1 / 2, 1]
             (\<lambda>radius. metric_step miles i dollar radius)))
       nb"

subsection \<open>The demographics join loop\<close>

definition demographics_step :: "nat \<Rightarrow> notebook \<Rightarrow> error + notebook" where
  "demographics_step i nb =
     (case loc_row (gps_df nb) i of
        Inl e \<Rightarrow> Inl e
      | Inr row \<Rightarrow>
          (let nbhd = gps_neighborhood row;
               matching = filter (\<lambda>r. neighborhood r = nbhd) (seattle_rent nb)
           in case item (map median_income matching) of
                Inl e \<Rightarrow> Inl e
              | Inr income \<Rightarrow>
                  (case item (map median_rent matching) of
                     Inl e \<Rightarrow> Inl e
                   | Inr rent \<Rightarrow>
                       (case item (map median_home_value matching) of
                          Inl e \<Rightarrow> Inl e
                        | Inr home \<Rightarrow>
                            Inr (nb\<lparr>gps_df := (gps_df nb)
                                   [i := row\<lparr>gps_median_income := income,
                                             gps_median_rent := rent,
                                             gps_median_home_value := home\<rparr>]\<rparr>)))))"

definition demographics_join :: "notebook \<Rightarrow> error + notebook" where
  "demographics_join nb = for_each [0..<length (gps_df nb)] demographics_step nb"

section \<open>The body of \<open>radius_dollar_proportion\<close>, name by name\<close>

text \<open>
  \<open>radius_dollar_proportion\<close> above is the function that the body computes from its four
  arguments. That the body reads nothing else is a fact about the names it uses, so
  the body is modelled a second time, statement by statement, over Python's scopes: a
  name is looked up among the locals of the call first and among the globals of the
  notebook second, and an assignment in a function without \<^verbatim>\<open>global\<close> statement binds
  a local. The module \<^verbatim>\<open>d\<close> is the program's import of geopy, not data of the notebook:
  its distance stays the parameter \<open>miles\<close>.
\<close>

datatype pyval =
  VFrame "yelp_row list" | VCoordinate coordinate | VFloat rat | VInt int | VList "int list"

record scope =
  locals :: "string \<rightharpoonup> pyval"
  globals :: "string \<rightharpoonup> pyval"

definition read :: "string \<Rightarrow> scope \<Rightarrow> error + pyval" where
  "read x s =
     (case locals s x of
        Some v \<Rightarrow> Inr v
      | None \<Rightarrow> (case globals s x of Some v \<Rightarrow> Inr v | None \<Rightarrow> Inl NameError))"

definition bind_local :: "string \<Rightarrow> pyval \<Rightarrow> scope \<Rightarrow> scope" where
  "bind_local x v s = s\<lparr>locals := (locals s)(x \<mapsto> v)\<rparr>"

text \<open>
  What each operation of the body takes: a frame for \<^verbatim>\<open>.shape\<close>, \<^verbatim>\<open>.loc\<close> and
  \<^verbatim>\<open>.iloc\<close>, an integer for \<^verbatim>\<open>range\<close>, and so on.
\<close>

definition as_frame :: "pyval \<Rightarrow> error + yelp_row list" where
  "as_frame v = (case v of VFrame df \<Rightarrow> Inr df | _ \<Rightarrow> Inl TypeError)"

definition as_coordinate :: "pyval \<Rightarrow> error + coordinate" where
  "as_coordinate v = (case v of VCoordinate c \<Rightarrow> Inr c | _ \<Rightarrow> Inl TypeError)"

definition as_int :: "pyval \<Rightarrow> error + int" where
  "as_int v = (case v of VInt k \<Rightarrow> Inr k | _ \<Rightarrow> Inl TypeError)"

definition as_list :: "pyval \<Rightarrow> error + int list" where
  "as_list v = (case v of VList xs \<Rightarrow> Inr xs | _ \<Rightarrow> Inl TypeError)"

definition as_number :: "pyval \<Rightarrow> error + rat" where
  "as_number v =
     (case v of VFloat x \<Rightarrow> Inr x | VInt k \<Rightarrow> Inr (of_int k) | _ \<Rightarrow> Inl TypeError)"

text \<open>
  \<^verbatim>\<open>df.loc[i, [column]]\<close> at an integer label, and \<^verbatim>\<open>df.iloc[indices]\<close>: a position
  below zero counts from the end, a position outside the frame is an \<^verbatim>\<open>IndexError\<close>.
\<close>

definition loc_int :: "'a list \<Rightarrow> int \<Rightarrow> error + 'a" where
  "loc_int df i = (if 0 \<le> i then loc_row df (nat i) else Inl KeyError)"

definition iloc_row :: "'a list \<Rightarrow> int \<Rightarrow> error + 'a" where
  "iloc_row df j =
     (let n = int (length df); k = (if j < 0 then n + j else j)
      in if 0 \<le> k \<and> k < n then Inr (df ! nat k) else Inl IndexError)"

fun iloc :: "'a list \<Rightarrow> int list \<Rightarrow> error + 'a list" where
  "iloc df [] = Inr []"
| "iloc df (j # js) =
     and_then (iloc_row df j) (\<lambda>r. and_then (iloc df js) (\<lambda>rs. Inr (r # rs)))"

text \<open>\<^verbatim>\<open>length = df.shape[0]\<close>\<close>

definition assign_length :: "scope \<Rightarrow> error + scope" where
  "assign_length s =
     and_then (read ''df'' s) (\<lambda>v. and_then (as_frame v) (\<lambda>df.
       Inr (bind_local ''length'' (VInt (int (length df))) s)))"

text \<open>
  \<^verbatim>\<open>coordinates = (float(df.loc[i, ["latitude"]]), float(df.loc[i, ["longitude"]]))\<close>
\<close>

definition assign_coordinates :: "scope \<Rightarrow> error + scope" where
  "assign_coordinates s =
     and_then (read ''df'' s) (\<lambda>v. and_then (as_frame v) (\<lambda>df.
     and_then (read ''i'' s) (\<lambda>v. and_then (as_int v) (\<lambda>i.
     and_then (loc_int df i) (\<lambda>row.
       Inr (bind_local ''coordinates'' (VCoordinate (latitude row, longitude row)) s))))))"

text \<open>
  \<^verbatim>\<open>if d.distance(location, coordinates).miles <= radius: indices.append(i)\<close>. The list
  is an object of the call, bound to no other name; appending to it is modelled as
  binding \<open>indices\<close> to the longer list.
\<close>

definition append_if_near :: "distance \<Rightarrow> scope \<Rightarrow> error + scope" where
  "append_if_near miles s =
     and_then (read ''location'' s) (\<lambda>v. and_then (as_coordinate v) (\<lambda>location.
     and_then (read ''coordinates'' s) (\<lambda>v. and_then (as_coordinate v) (\<lambda>coordinates.
     and_then (read ''radius'' s) (\<lambda>v. and_then (as_number v) (\<lambda>radius.
       if miles location coordinates \<le> radius
       then and_then (read ''indices'' s) (\<lambda>v. and_then (as_list v) (\<lambda>indices.
            and_then (read ''i'' s) (\<lambda>v. and_then (as_int v) (\<lambda>i.
              Inr (bind_local ''indices'' (VList (indices @ [i])) s)))))
       else Inr s))))))"

text \<open>One pass of \<^verbatim>\<open>for i in range(length)\<close>, and the loop.\<close>

definition scan_step :: "distance \<Rightarrow> int \<Rightarrow> scope \<Rightarrow> error + scope" where
  "scan_step miles i s =
     and_then (assign_coordinates (bind_local ''i'' (VInt i) s)) (append_if_near miles)"

definition scan_loop :: "distance \<Rightarrow> scope \<Rightarrow> error + scope" where
  "scan_loop miles s =
     and_then (read ''length'' s) (\<lambda>v. and_then (as_int v) (\<lambda>n.
       for_each (py_range n) (scan_step miles) s))"

text \<open>
  The \<^verbatim>\<open>if len(indices) == 0\<close> statement with its two branches: \<^verbatim>\<open>proportion = 0\<close>, or
  the three assignments to \<open>surrounding_businesses\<close>, \<open>total_businesses\<close> and
  \<open>proportion\<close>. The two counts are row counts, so the division is \<open>truediv\<close>.
\<close>

definition assign_surrounding :: "scope \<Rightarrow> error + scope" where
  "assign_surrounding s =
     and_then (read ''df'' s) (\<lambda>v. and_then (as_frame v) (\<lambda>df.
     and_then (read ''indices'' s) (\<lambda>v. and_then (as_list v) (\<lambda>indices.
     and_then (iloc df indices) (\<lambda>rows.
       Inr (bind_local ''surrounding_businesses'' (VFrame rows) s))))))"

definition assign_total :: "scope \<Rightarrow> error + scope" where
  "assign_total s =
     and_then (read ''surrounding_businesses'' s) (\<lambda>v. and_then (as_frame v) (\<lambda>rows.
       Inr (bind_local ''total_businesses'' (VInt (int (length rows))) s)))"

definition assign_quotient :: "scope \<Rightarrow> error + scope" where
  "assign_quotient s =
     and_then (read ''surrounding_businesses'' s) (\<lambda>v. and_then (as_frame v) (\<lambda>rows.
     and_then (read ''dollar_tier'' s) (\<lambda>v. and_then (as_int v) (\<lambda>dollar_tier.
     and_then (read ''total_businesses'' s) (\<lambda>v. and_then (as_int v) (\<lambda>total_businesses.
     and_then (truediv (length (filter (\<lambda>r. price r = dollar_tier) rows))
                 (nat total_businesses)) (\<lambda>q.
       Inr (bind_local ''proportion'' (VFloat q) s))))))))"

definition assign_proportion :: "scope \<Rightarrow> error + scope" where
  "assign_proportion s =
     and_then (read ''indices'' s) (\<lambda>v. and_then (as_list v) (\<lambda>indices.
       if length indices = 0 then Inr (bind_local ''proportion'' (VInt 0) s)
       else and_then (assign_surrounding s) (\<lambda>s1.
            and_then (assign_total s1) assign_quotient)))"

text \<open>The statements in their order, down to \<^verbatim>\<open>return proportion\<close>.\<close>

definition run_body :: "distance \<Rightarrow> scope \<Rightarrow> error + rat \<times> scope" where
  "run_body miles s =
     and_then (assign_length s) (\<lambda>s1.
     and_then (scan_loop miles (bind_local ''indices'' (VList []) s1)) (\<lambda>s2.
     and_then (assign_proportion s2) (\<lambda>s3.
     and_then (read ''proportion'' s3) (\<lambda>v. and_then (as_number v) (\<lambda>p.
       Inr (p, s3))))))"

text \<open>
  A call binds the four parameters as the locals and runs the body in the globals of
  the moment; it gives the value returned and the globals as the call leaves them.
\<close>

definition call_radius_dollar_proportion ::
  "distance \<Rightarrow> coordinate \<Rightarrow> yelp_row list \<Rightarrow> rat \<Rightarrow> int \<Rightarrow> (string \<rightharpoonup> pyval)
     \<Rightarrow> error + rat \<times> (string \<rightharpoonup> pyval)" where
  "call_radius_dollar_proportion miles location df radius dollar_tier g =
     and_then
       (run_body miles
          \<lparr>locals = [''location'' \<mapsto> VCoordinate location, ''df'' \<mapsto> VFrame df,
                     ''radius'' \<mapsto> VFloat radius, ''dollar_tier'' \<mapsto> VInt dollar_tier],
           globals = g\<rparr>)
       (\<lambda>r. Inr (fst r, globals (snd r)))"

section \<open>Vocabulary of the statements\<close>

text \<open>
  The eight columns of \<open>gps_df\<close> that the metric loop fills, and the frames that have
  them all.
\<close>

definition metric_columns :: "(rat \<times> int) list" where
  "metric_columns =
     [(1 / 2, 1), (1, 1), (1 / 2, 2), (1, 2), (1 / 2, 3), (1, 3), (1 / 2, 4), (1, 4)]"

definition has_metric_columns :: "gps_row list \<Rightarrow> bool" where
  "has_metric_columns df =
     list_all (\<lambda>r. list_all (\<lambda>c. radius_dollar r c \<noteq> None) metric_columns) df"

text \<open>
  The proportion of tier \<open>t\<close> among selected businesses: 0 when none is selected, else
  the float nearest to the quotient of the two counts.
\<close>

definition tier_share :: "yelp_row list \<Rightarrow> int \<Rightarrow> rat" where
  "tier_share selected t =
     (if selected = [] then 0
      else fl (of_nat (length (filter (\<lambda>r. price r = t) selected)) / of_nat (length selected)))"

text \<open>
  Invariants of the two loops over \<open>gps_df\<close>. \<open>same_points nb s\<close>: the state \<open>s\<close> has the
  reference frames of \<open>nb\<close> and the same points in the same neighborhoods.
  \<open>cell_filled miles nb s (i, dollar, radius)\<close>: in \<open>s\<close> the cell of point \<open>i\<close> for that
  radius and tier holds the proportion of the tier among the businesses of \<open>yelp\<close>
  within the radius of the point.
\<close>

definition same_points :: "notebook \<Rightarrow> notebook \<Rightarrow> bool" where
  "same_points nb s \<longleftrightarrow>
     yelp s = yelp nb \<and> seattle_rent s = seattle_rent nb
     \<and> map gps_latitude (gps_df s) = map gps_latitude (gps_df nb)
     \<and> map gps_longitude (gps_df s) = map gps_longitude (gps_df nb)
     \<and> map gps_neighborhood (gps_df s) = map gps_neighborhood (gps_df nb)"

definition cell_filled :: "distance \<Rightarrow> notebook \<Rightarrow> notebook \<Rightarrow> nat \<times> int \<times> rat \<Rightarrow> bool" where
  "cell_filled miles nb s z =
     (case z of (i, dollar, radius) \<Rightarrow>
        radius_dollar (gps_df s ! i) (radius, dollar)
          = Some (Number (tier_share
              (records_within miles
                 (gps_latitude (gps_df nb ! i), gps_longitude (gps_df nb ! i)) (yelp nb) radius)
              dollar)))"

text \<open>
  Invariant of the loop of the body: the globals are \<open>g\<close>, the four parameters and
  \<open>length\<close> are bound as at the start, and \<open>indices\<close> is bound to \<open>acc\<close>.
\<close>

definition scanning ::
  "coordinate \<Rightarrow> yelp_row list \<Rightarrow> rat \<Rightarrow> int \<Rightarrow> (string \<rightharpoonup> pyval) \<Rightarrow> nat list \<Rightarrow> scope \<Rightarrow> bool" where
  "scanning location df radius dollar_tier g acc s \<longleftrightarrow>
     globals s = g
     \<and> locals s ''location'' = Some (VCoordinate location)
     \<and> locals s ''df'' = Some (VFrame df)
     \<and> locals s ''radius'' = Some (VFloat radius)
     \<and> locals s ''dollar_tier'' = Some (VInt dollar_tier)
     \<and> locals s ''length'' = Some (VInt (int (length df)))
     \<and> locals s ''indices'' = Some (VList (map int acc))"

text \<open>
  The cells of a tier's column in a frame of neighborhoods, \<open>None\<close> where a row has no
  such cell, and the column as a call of \<open>dollar_rating\<close> leaves it.
\<close>

definition tier_column :: "int \<Rightarrow> seattle_row list \<Rightarrow> cell option list" where
  "tier_column t df = map (\<lambda>r. tier_dollar r t) df"

definition dollar_rating_column ::
  "seattle_row list \<Rightarrow> yelp_row list \<Rightarrow> string \<Rightarrow> int \<Rightarrow> error + cell option list" where
  "dollar_rating_column seattle_df yelp_df nbhd dollar_tier =
     (case dollar_rating seattle_df yelp_df nbhd dollar_tier of
        Inl e \<Rightarrow> Inl e
      | Inr r \<Rightarrow> Inr (tier_column dollar_tier (fst r)))"

text \<open>
  The notebook with other regions: every sampled point \<open>r\<close> moved to neighborhood \<open>g r\<close>
  and every business \<open>r\<close> to neighborhood \<open>h r\<close>, coordinates and tiers as they were.
\<close>

definition with_regions ::
  "(gps_row \<Rightarrow> string) \<Rightarrow> (yelp_row \<Rightarrow> string) \<Rightarrow> notebook \<Rightarrow> notebook" where
  "with_regions g h nb =
     nb\<lparr>yelp := map (\<lambda>r. r\<lparr>cra := h r\<rparr>) (yelp nb),
        gps_df := map (\<lambda>r. r\<lparr>gps_neighborhood := g r\<rparr>) (gps_df nb)\<rparr>"

section \<open>Sample data\<close>

text \<open>
  Small concrete inputs on which the definitions are evaluated. \<open>example_miles\<close>
  stands in for geopy's distance: the sum of the differences in latitude and in
  longitude. Around the point \<open>(47, - 122)\<close> the three businesses of \<open>example_yelp\<close>
  lie at distances \<open>1 / 4\<close>, \<open>3 / 4\<close> and \<open>2\<close>.
\<close>

definition example_miles :: distance where
  "example_miles a b = \<bar>fst a - fst b\<bar> + \<bar>snd a - snd b\<bar>"

definition example_yelp :: "yelp_row list" where
  "example_yelp =
     [\<lparr>cra = ''Ballard'', price = 2, latitude = 189 / 4, longitude = - 122\<rparr>,
      \<lparr>cra = ''Fremont'', price = 2, latitude = 47, longitude = - 485 / 4\<rparr>,
      \<lparr>cra = ''Ballard'', price = 1, latitude = 49, longitude = - 122\<rparr>]"

text \<open>Six businesses at one place, of tiers 2, 3, 3, 3, 3 and 4.\<close>

definition example_six :: "yelp_row list" where
  "example_six =
     map (\<lambda>t. \<lparr>cra = ''Ballard'', price = t, latitude = 47, longitude = - 122\<rparr>)
       [2, 3, 3, 3, 3, 4]"

definition example_seattle :: "seattle_row list" where
  "example_seattle =
     [\<lparr>neighborhood = ''Ballard'', median_rent = 1542, median_home_value = 543200,
       median_income = 79162, tier_dollar = [1 \<mapsto> Number 0, 2 \<mapsto> Number 0, 3 \<mapsto> Number 0, 4 \<mapsto> Number 0]\<rparr>,
      \<lparr>neighborhood = ''Interbay'', median_rent = 1490, median_home_value = 571300,
       median_income = 74679, tier_dollar = [1 \<mapsto> Number 0, 2 \<mapsto> Number 0, 3 \<mapsto> Number 0, 4 \<mapsto> Number 0]\<rparr>]"

text \<open>
  The columns that the notebook adds to \<open>gps_df\<close> before the metric loop, filled with 0:
  \<^verbatim>\<open>0.5mi {i} dollar\<close> and \<^verbatim>\<open>1.0mi {i} dollar\<close> for \<open>i\<close> from 1 to 4.
\<close>

definition filler_columns :: "rat \<times> int \<rightharpoonup> cell" where
  "filler_columns =
     [(1 / 2, 1) \<mapsto> Number 0, (1, 1) \<mapsto> Number 0, (1 / 2, 2) \<mapsto> Number 0,
      (1, 2) \<mapsto> Number 0, (1 / 2, 3) \<mapsto> Number 0, (1, 3) \<mapsto> Number 0,
      (1 / 2, 4) \<mapsto> Number 0, (1, 4) \<mapsto> Number 0]"

definition example_gps :: "gps_row list" where
  "example_gps =
     [\<lparr>gps_latitude = 47, gps_longitude = - 122, gps_neighborhood = ''Interbay'',
       radius_dollar = filler_columns, gps_median_income = 0, gps_median_rent = 0,
       gps_median_home_value = 0\<rparr>]"

definition example_notebook :: notebook where
  "example_notebook =
     \<lparr>yelp = example_yelp, seattle_rent = example_seattle, gps_df = example_gps\<rparr>"

text \<open>A point whose neighborhood has no row in \<open>example_seattle\<close>.\<close>

definition example_unmatched :: notebook where
  "example_unmatched =
     \<lparr>yelp = example_yelp, seattle_rent = example_seattle,
      gps_df = example_gps @
        [\<lparr>gps_latitude = 48, gps_longitude = - 122, gps_neighborhood = ''Georgetown'',
          radius_dollar = filler_columns, gps_median_income = 0, gps_median_rent = 0,
          gps_median_home_value = 0\<rparr>]\<rparr>"

text \<open>
  Globals that bind the names the body uses, to objects of other kinds, and a second
  set without them.
\<close>

definition example_globals :: "string \<rightharpoonup> pyval" where
  "example_globals =
     [''df'' \<mapsto> VInt 3, ''indices'' \<mapsto> VFrame example_six, ''yelp'' \<mapsto> VFrame example_six,
      ''radius'' \<mapsto> VFloat 5]"

definition other_globals :: "string \<rightharpoonup> pyval" where
  "other_globals = [''yelp'' \<mapsto> VFrame example_yelp]"

section \<open>Properties of the float operations\<close>

lemma bit_length_0 [simp]: "bit_length 0 = 0"
  by (simp add: bit_length.simps)

lemma bit_length_pos: "0 < n \<Longrightarrow> 0 < bit_length n"
  by (subst bit_length.simps) simp

lemma bit_length_bounds: "0 < n \<Longrightarrow> 2 ^ (bit_length n - 1) \<le> n \<and> n < 2 ^ bit_length n"
proof (induction n rule: bit_length.induct)
  case (1 n)
  show ?case
  proof (cases "n div 2 = 0")
    case True
    with 1 have "n = 1" by (simp add: div_eq_0_iff)
    then show ?thesis by (simp add: bit_length.simps)
  next
    case False
    then have pos: "0 < n div 2" by simp
    from 1 have n0: "n \<noteq> 0" by simp
    have ih: "2 ^ (bit_length (n div 2) - 1) \<le> n div 2 \<and> n div 2 < 2 ^ bit_length (n div 2)"
      using "1.IH" [OF n0 pos] .
    have bl: "bit_length n = Suc (bit_length (n div 2))"
      using n0 by (subst bit_length.simps) simp
    have "0 < bit_length (n div 2)" using pos by (rule bit_length_pos)
    then obtain k where k: "bit_length (n div 2) = Suc k"
      by (cases "bit_length (n div 2)") auto
    from ih k have "2 ^ k \<le> n div 2" "n div 2 < 2 ^ Suc k" by simp_all
    then have "2 * 2 ^ k \<le> n" "n < 2 * 2 ^ Suc k" by linarith+
    then show ?thesis by (simp add: bl k)
  qed
qed

lemma ilog2_bounds:
  assumes "0 < x"
  shows "power_int 2 (ilog2 x) \<le> x \<and> x < power_int 2 (ilog2 x + 1)"
proof (cases "1 \<le> x")
  case True
  define n where "n = nat \<lfloor>x\<rfloor>"
  have n: "0 < n" "of_nat n \<le> x" "x < of_nat n + 1"
    using True by (simp_all add: n_def) linarith+
  obtain k where k: "bit_length n = Suc k"
    using bit_length_pos [OF n(1)] by (cases "bit_length n") auto
  have b: "2 ^ k \<le> n" "n < 2 ^ Suc k" using bit_length_bounds [OF n(1)] k by simp_all
  have e: "ilog2 x = int k"
    unfolding ilog2_def n_def [symmetric] using True k by simp
  have "(2 :: rat) ^ k \<le> of_nat n" using b(1) by (metis of_nat_le_iff of_nat_numeral of_nat_power)
  then have lo: "(2 :: rat) ^ k \<le> x" using n(2) by linarith
  have "n + 1 \<le> 2 ^ Suc k" using b(2) by simp
  then have "(of_nat (n + 1) :: rat) \<le> of_nat (2 ^ Suc k)" by (simp only: of_nat_le_iff)
  then have "(of_nat n + 1 :: rat) \<le> 2 ^ Suc k" by simp
  then have hi: "x < 2 ^ Suc k" using n(3) by linarith
  have "int k + 1 = int (Suc k)" by simp
  then show ?thesis using lo hi by (simp only: e power_int_of_nat)
next
  case False
  then have x1: "x < 1" by simp
  define m where "m = nat \<lceil>1 / x\<rceil> - 1"
  have c: "1 < 1 / x" using assms x1 by simp
  then have c2: "2 \<le> \<lceil>1 / x\<rceil>" by (simp add: le_ceiling_iff)
  then have m: "0 < m" by (simp add: m_def)
  have mc: "int m + 1 = \<lceil>1 / x\<rceil>" using c2 unfolding m_def by linarith
  have up: "1 / x \<le> of_nat m + 1"
  proof -
    have "1 / x \<le> of_int \<lceil>1 / x\<rceil>" by (rule le_of_int_ceiling)
    also have "\<dots> = of_int (int m + 1)" by (simp only: mc)
    also have "\<dots> = of_nat m + 1" by simp
    finally show ?thesis .
  qed
  have dn: "of_nat m < 1 / x"
  proof -
    have "of_int (\<lceil>1 / x\<rceil> - 1) < 1 / x" using ceiling_correct [of "1 / x"] by simp
    moreover have "\<lceil>1 / x\<rceil> - 1 = int m" using mc by simp
    ultimately show ?thesis by simp
  qed
  obtain k where k: "bit_length m = Suc k"
    using bit_length_pos [OF m] by (cases "bit_length m") auto
  have b: "2 ^ k \<le> m" "m < 2 ^ Suc k" using bit_length_bounds [OF m] k by simp_all
  have e: "ilog2 x = - int (Suc k)"
    unfolding ilog2_def m_def [symmetric] using False k by simp
  have "m + 1 \<le> 2 ^ Suc k" using b(2) by simp
  then have "(of_nat (m + 1) :: rat) \<le> of_nat (2 ^ Suc k)" by (simp only: of_nat_le_iff)
  then have "(of_nat m + 1 :: rat) \<le> 2 ^ Suc k" by simp
  then have "1 / x \<le> 2 ^ Suc k" using up by linarith
  then have "1 \<le> 2 ^ Suc k * x" using assms by (simp add: pos_divide_le_eq)
  then have lo: "1 / 2 ^ Suc k \<le> x" by (simp add: pos_divide_le_eq mult.commute)
  have "(2 :: rat) ^ k \<le> of_nat m" using b(1) by (metis of_nat_le_iff of_nat_numeral of_nat_power)
  then have "2 ^ k < 1 / x" using dn by linarith
  then have "2 ^ k * x < 1" using assms by (simp add: pos_less_divide_eq)
  then have hi: "x < 1 / 2 ^ k" by (simp add: pos_less_divide_eq mult.commute)
  have p1: "power_int (2 :: rat) (- int (Suc k)) = 1 / 2 ^ Suc k"
    by (simp only: power_int_minus power_int_of_nat inverse_eq_divide)
  have "- int (Suc k) + 1 = - int k" by simp
  then have p2: "power_int (2 :: rat) (- int (Suc k) + 1) = 1 / 2 ^ k"
    by (simp only: power_int_minus power_int_of_nat inverse_eq_divide)
  show ?thesis using lo hi by (simp only: e p1 p2)
qed

lemma round_half_even_error: "\<bar>of_int (round_half_even x) - x\<bar> \<le> 1 / 2"
  unfolding round_half_even_def Let_def
  by (auto simp: abs_if) linarith+

lemma round_half_even_le: "x \<le> of_int n \<Longrightarrow> round_half_even x \<le> n"
proof -
  assume a: "x \<le> of_int n"
  have f: "\<lfloor>x\<rfloor> \<le> n" using a by (simp add: floor_le_iff) 
  show ?thesis
  proof (cases "\<lfloor>x\<rfloor> = n")
    case True
    then have "x - of_int \<lfloor>x\<rfloor> \<le> 0" using a by simp
    then show ?thesis using True by (simp add: round_half_even_def Let_def)
  next
    case False
    with f have "\<lfloor>x\<rfloor> + 1 \<le> n" by simp
    then show ?thesis using f by (simp add: round_half_even_def Let_def)
  qed
qed

lemma round_half_even_nonneg: "0 \<le> x \<Longrightarrow> 0 \<le> round_half_even x"
  by (simp add: round_half_even_def Let_def)

lemma ilog2_one: "ilog2 1 = 0"
  by (simp add: ilog2_def bit_length.simps)

lemma ilog2_below_one: "0 < x \<Longrightarrow> x < 1 \<Longrightarrow> ilog2 x \<le> - 1"
proof -
  assume x: "0 < x" "x < 1"
  then have "1 < 1 / x" by simp
  then have "2 \<le> \<lceil>1 / x\<rceil>" by (simp add: le_ceiling_iff)
  then have "0 < nat \<lceil>1 / x\<rceil> - 1" by linarith
  then have "0 < bit_length (nat \<lceil>1 / x\<rceil> - 1)" by (rule bit_length_pos)
  then show ?thesis using x by (simp add: ilog2_def)
qed

lemma ulp_pos: "0 < ulp x"
  by (simp add: ulp_def)

lemma fl_nonneg: "0 \<le> x \<Longrightarrow> 0 \<le> fl x"
  by (simp add: fl_def ulp_pos round_half_even_nonneg less_imp_le)

lemma fl_one: "fl 1 = 1"
  by (simp add: fl_def ulp_def ilog2_one round_half_even_def Let_def power_int_minus)

lemma ulp_below_one:
  assumes "0 < x" "x < 1"
  shows "ulp x \<le> 1 / 2 ^ 53" and "\<exists>n. 1 / ulp x = of_int n"
proof -
  define e where "e = max (ilog2 x) (- 1022)"
  have e: "e \<le> - 1" using ilog2_below_one [OF assms] by (simp add: e_def)
  have u: "ulp x = power_int 2 (e - 52)" by (simp add: ulp_def e_def)
  have "power_int (2::rat) (e - 52) \<le> power_int 2 (- 53)"
    using e by (intro power_int_increasing) simp_all
  also have "power_int (2::rat) (- 53) = 1 / 2 ^ 53"
    by (simp add: power_int_minus inverse_eq_divide)
  finally show "ulp x \<le> 1 / 2 ^ 53" by (simp only: u)
  have "1 / ulp x = power_int 2 (52 - e)"
    by (simp add: u power_int_diff)
  also have "\<dots> = 2 ^ nat (52 - e)" using e by (simp add: power_int_def)
  also have "\<dots> = of_int (2 ^ nat (52 - e))" by simp
  finally show "\<exists>n. 1 / ulp x = of_int n" by blast
qed

lemma fl_le_one:
  assumes "0 \<le> x" "x \<le> 1"
  shows "fl x \<le> 1"
proof -
  consider "x = 0" | "x = 1" | "0 < x" "x < 1" using assms by fastforce
  then show ?thesis
  proof cases
    case 1 then show ?thesis by (simp add: fl_def)
  next
    case 2 then show ?thesis by (simp add: fl_one)
  next
    case 3
    obtain n where n: "1 / ulp x = of_int n" using ulp_below_one(2) [OF 3] by blast
    have "x / ulp x \<le> 1 / ulp x" using 3 ulp_pos [of x] by (simp add: divide_right_mono)
    then have "round_half_even (x / ulp x) \<le> n" using n by (simp add: round_half_even_le)
    then have "(of_int (round_half_even (x / ulp x)) :: rat) \<le> of_int n" by simp
    then have "of_int (round_half_even (x / ulp x)) * ulp x \<le> of_int n * ulp x"
      using ulp_pos [of x] by (simp add: mult_right_mono)
    moreover have "of_int n * ulp x = 1" using n ulp_pos [of x] by (simp add: field_simps)
    ultimately show ?thesis using 3 by (simp add: fl_def)
  qed
qed

lemma fl_error:
  assumes "0 \<le> x" "x \<le> 1"
  shows "\<bar>fl x - x\<bar> \<le> 1 / 2 ^ 54"
proof -
  consider "x = 0" | "x = 1" | "0 < x" "x < 1" using assms by fastforce
  then show ?thesis
  proof cases
    case 1 then show ?thesis by (simp add: fl_def)
  next
    case 2 then show ?thesis by (simp add: fl_one)
  next
    case 3
    have up: "0 < ulp x" by (rule ulp_pos)
    have "\<bar>of_int (round_half_even (x / ulp x)) - x / ulp x\<bar> \<le> 1 / 2"
      by (rule round_half_even_error)
    then have "\<bar>of_int (round_half_even (x / ulp x)) - x / ulp x\<bar> * ulp x \<le> 1 / 2 * ulp x"
      using up by (simp add: mult_right_mono)
    moreover have "\<bar>of_int (round_half_even (x / ulp x)) - x / ulp x\<bar> * ulp x
        = \<bar>of_int (round_half_even (x / ulp x)) * ulp x - x\<bar>"
    proof -
      have "(of_int (round_half_even (x / ulp x)) - x / ulp x) * ulp x
          = of_int (round_half_even (x / ulp x)) * ulp x - x"
        using up by (simp add: left_diff_distrib)
      then have "\<bar>of_int (round_half_even (x / ulp x)) * ulp x - x\<bar>
          = \<bar>of_int (round_half_even (x / ulp x)) - x / ulp x\<bar> * \<bar>ulp x\<bar>"
        by (simp only: abs_mult [symmetric])
      then show ?thesis using up by simp
    qed
    ultimately have "\<bar>of_int (round_half_even (x / ulp x)) * ulp x - x\<bar> \<le> 1 / 2 * ulp x"
      by simp
    also have "\<dots> \<le> 1 / 2 * (1 / 2 ^ 53)" using ulp_below_one(1) [OF 3] by simp
    finally show ?thesis using 3 by (simp add: fl_def)
  qed
qed

lemma fl_tenth: "fl (1 / 10) = 3602879701896397 / 2 ^ 55"
  by code_simp

lemma fl_third: "fl (1 / 3) = 6004799503160661 / 2 ^ 54"
  by code_simp

lemma fl_exact_example: "fl (- 4287215739024179 / 2 ^ 45) = - 4287215739024179 / 2 ^ 45"
  by code_simp

lemma truediv_le:
  assumes "a \<le> b" "0 < b"
  shows "truediv a b = Inr (fl (of_nat a / of_nat b))"
proof -
  have "(of_nat a / of_nat b :: rat) \<le> 1" "(0::rat) \<le> of_nat a / of_nat b"
    using assms by simp_all
  then have "fl (of_nat a / of_nat b) \<le> 1" by (simp add: fl_le_one)
  moreover have "(1::rat) < 2 ^ 1024" by simp
  ultimately have "\<not> 2 ^ 1024 \<le> fl (of_nat a / of_nat b)" by linarith
  then show ?thesis using assms by (simp add: truediv_def Let_def)
qed

section \<open>Properties of the distance filter and the proportions\<close>

lemma radius_scan_filter:
  "radius_scan miles location df radius i indices =
     indices @ filter (\<lambda>j. miles location (latitude (df ! j), longitude (df ! j)) \<le> radius)
                 [i..<length df]"
proof (induction miles location df radius i indices rule: radius_scan.induct)
  case (1 miles location df radius i indices)
  show ?case
  proof (cases "i < length df")
    case True
    then have up: "[i..<length df] = i # [Suc i..<length df]" by (simp add: upt_conv_Cons)
    show ?thesis
      using True 1 by (subst radius_scan.simps) (simp add: up)
  next
    case False
    then show ?thesis by (subst radius_scan.simps) simp
  qed
qed

lemma nth_filter_upt:
  "map (\<lambda>i. df ! i) (filter (\<lambda>j. P (df ! j)) [0..<length df]) = filter P df"
proof -
  have "map (\<lambda>i. df ! i) (filter (\<lambda>j. P (df ! j)) [0..<length df])
          = filter P (map (\<lambda>i. df ! i) [0..<length df])"
    by (simp add: filter_map comp_def)
  then show ?thesis by (simp add: map_nth)
qed

lemma selected_rows:
  "map (\<lambda>i. df ! i) (radius_scan miles location df radius 0 []) = records_within miles location df radius"
  using nth_filter_upt [of df "\<lambda>r. miles location (latitude r, longitude r) \<le> radius"]
  by (simp add: radius_scan_filter records_within_def)

lemma scan_empty_iff:
  "radius_scan miles location df radius 0 [] = [] \<longleftrightarrow> records_within miles location df radius = []"
  using selected_rows [of df miles location radius] by (metis map_is_Nil_conv)

lemma rdp_empty:
  "records_within miles location df radius = [] \<Longrightarrow>
   radius_dollar_proportion miles location df radius t = Inr 0"
  by (simp add: radius_dollar_proportion_def scan_empty_iff)

lemma rdp_nonempty:
  assumes "records_within miles location df radius \<noteq> []"
  shows "radius_dollar_proportion miles location df radius t =
           Inr (fl (of_nat (length (filter (\<lambda>r. price r = t) (records_within miles location df radius)))
                     / of_nat (length (records_within miles location df radius))))"
proof -
  let ?sel = "records_within miles location df radius"
  have ne: "radius_scan miles location df radius 0 [] \<noteq> []"
    using assms by (simp add: scan_empty_iff)
  have "radius_dollar_proportion miles location df radius t
          = truediv (length (filter (\<lambda>r. price r = t) ?sel)) (length ?sel)"
    using ne selected_rows [of df miles location radius]
    by (simp add: radius_dollar_proportion_def Let_def)
  also have "\<dots> = Inr (fl (of_nat (length (filter (\<lambda>r. price r = t) ?sel)) / of_nat (length ?sel)))"
  proof (rule truediv_le)
    show "length (filter (\<lambda>r. price r = t) ?sel) \<le> length ?sel" by (rule length_filter_le)
    show "0 < length ?sel" using assms by simp
  qed
  finally show ?thesis .
qed

lemma rdp_total:
  "\<exists>p. radius_dollar_proportion miles location df radius t = Inr p"
proof (cases "records_within miles location df radius = []")
  case True
  then show ?thesis by (simp add: rdp_empty)
next
  case False
  then show ?thesis by (simp add: rdp_nonempty)
qed

lemma rdp_ignores_cra:
  "radius_dollar_proportion miles location (map (\<lambda>r. r\<lparr>cra := h r\<rparr>) df) radius t
     = radius_dollar_proportion miles location df radius t"
proof -
  let ?f = "\<lambda>r. r\<lparr>cra := h r\<rparr>"
  have w: "records_within miles location (map ?f df) radius
             = map ?f (records_within miles location df radius)"
    by (simp add: records_within_def filter_map comp_def)
  have c: "filter (\<lambda>r. price r = t) (map ?f (records_within miles location df radius))
             = map ?f (filter (\<lambda>r. price r = t) (records_within miles location df radius))"
    by (simp add: filter_map comp_def)
  show ?thesis
  proof (cases "records_within miles location df radius = []")
    case True
    then show ?thesis using w by (simp add: rdp_empty)
  next
    case False
    then have "records_within miles location (map ?f df) radius \<noteq> []" using w by simp
    then show ?thesis using False by (simp add: rdp_nonempty w c)
  qed
qed

lemma rdp_share:
  "radius_dollar_proportion miles location df radius t
     = Inr (tier_share (records_within miles location df radius) t)"
proof (cases "records_within miles location df radius = []")
  case True
  then show ?thesis by (simp add: rdp_empty tier_share_def)
next
  case False
  then show ?thesis by (simp add: rdp_nonempty tier_share_def)
qed

lemma tier_share_ignores_cra:
  "tier_share (records_within miles location (map (\<lambda>r. r\<lparr>cra := h r\<rparr>) df) radius) t
     = tier_share (records_within miles location df radius) t"
  using rdp_ignores_cra [of miles location h df radius t] by (simp add: rdp_share)

lemma tier_counts:
  "\<forall>r \<in> set xs. price r \<in> {1, 2, 3, 4} \<Longrightarrow>
   length (filter (\<lambda>r. price r = 1) xs) + length (filter (\<lambda>r. price r = 2) xs)
     + length (filter (\<lambda>r. price r = 3) xs) + length (filter (\<lambda>r. price r = 4) xs)
   = length xs"
  by (induction xs) auto

lemma proportion_sum_unfold:
  assumes "radius_dollar_proportion miles location df radius 1 = Inr p1"
    and "radius_dollar_proportion miles location df radius 2 = Inr p2"
    and "radius_dollar_proportion miles location df radius 3 = Inr p3"
    and "radius_dollar_proportion miles location df radius 4 = Inr p4"
  shows "proportion_sum miles location df radius = Inr (p1 + p2 + p3 + p4)"
  using assms by (simp add: proportion_sum_def)

lemma loc_set_dollar_present:
  assumes "list_all (\<lambda>r. tier_dollar r t \<noteq> None) seattle_df"
  shows "loc_set_dollar seattle_df
           (filter (\<lambda>i. neighborhood (seattle_df ! i) = nbhd) [0..<length seattle_df]) t p
     = map (\<lambda>r. if neighborhood r = nbhd
                 then r\<lparr>tier_dollar := (tier_dollar r)(t \<mapsto> Number p)\<rparr> else r) seattle_df"
proof (rule nth_equalityI)
  show "length (loc_set_dollar seattle_df
           (filter (\<lambda>i. neighborhood (seattle_df ! i) = nbhd) [0..<length seattle_df]) t p)
      = length (map (\<lambda>r. if neighborhood r = nbhd
                 then r\<lparr>tier_dollar := (tier_dollar r)(t \<mapsto> Number p)\<rparr> else r) seattle_df)"
    by (simp add: loc_set_dollar_def)
next
  fix i
  assume "i < length (loc_set_dollar seattle_df
           (filter (\<lambda>i. neighborhood (seattle_df ! i) = nbhd) [0..<length seattle_df]) t p)"
  then have i: "i < length seattle_df" by (simp add: loc_set_dollar_def)
  then have "tier_dollar (seattle_df ! i) t \<noteq> None"
    using assms by (simp add: list_all_length)
  then show "loc_set_dollar seattle_df
           (filter (\<lambda>i. neighborhood (seattle_df ! i) = nbhd) [0..<length seattle_df]) t p ! i
      = map (\<lambda>r. if neighborhood r = nbhd
                 then r\<lparr>tier_dollar := (tier_dollar r)(t \<mapsto> Number p)\<rparr> else r) seattle_df ! i"
    using i by (auto simp: loc_set_dollar_def)
qed

lemma dollar_rating_result:
  "dollar_rating seattle_df yelp_df nbhd t =
     Inr (loc_set_dollar seattle_df
            (filter (\<lambda>i. neighborhood (seattle_df ! i) = nbhd) [0..<length seattle_df]) t
            (tier_share (filter (\<lambda>r. cra r = nbhd) yelp_df) t),
          yelp_df)"
proof (cases "filter (\<lambda>r. cra r = nbhd) yelp_df = []")
  case True
  then show ?thesis by (simp add: dollar_rating_def Let_def tier_share_def)
next
  case False
  let ?hood = "filter (\<lambda>r. cra r = nbhd) yelp_df"
  have "truediv (length (filter (\<lambda>r. price r = t) ?hood)) (length ?hood)
      = Inr (fl (of_nat (length (filter (\<lambda>r. price r = t) ?hood)) / of_nat (length ?hood)))"
  proof (rule truediv_le)
    show "length (filter (\<lambda>r. price r = t) ?hood) \<le> length ?hood" by (rule length_filter_le)
    show "0 < length ?hood" using False by simp
  qed
  then show ?thesis
    using False by (simp add: dollar_rating_def Let_def tier_share_def del: filter_filter)
qed

section \<open>Properties of the loops\<close>

lemma for_each_collect:
  assumes "P s"
    and "\<And>x s. x \<in> set xs \<Longrightarrow> P s \<Longrightarrow>
           \<exists>s'. body x s = Inr s' \<and> P s' \<and> (\<forall>z \<in> f x. K z s') \<and> (\<forall>z. K z s \<longrightarrow> K z s')"
  shows "\<exists>s'. for_each xs body s = Inr s' \<and> P s'
           \<and> (\<forall>x \<in> set xs. \<forall>z \<in> f x. K z s') \<and> (\<forall>z. K z s \<longrightarrow> K z s')"
  using assms
proof (induction xs arbitrary: s)
  case Nil
  then show ?case by simp
next
  case (Cons x xs)
  obtain s1 where s1: "body x s = Inr s1" "P s1" "\<forall>z \<in> f x. K z s1" "\<forall>z. K z s \<longrightarrow> K z s1"
    using Cons.prems(2) [of x s] Cons.prems(1) by auto
  have "\<exists>s'. for_each xs body s1 = Inr s' \<and> P s'
           \<and> (\<forall>x \<in> set xs. \<forall>z \<in> f x. K z s') \<and> (\<forall>z. K z s1 \<longrightarrow> K z s')"
    using s1(2) Cons.prems(2) by (intro Cons.IH) auto
  then obtain s' where s': "for_each xs body s1 = Inr s'" "P s'"
      "\<forall>x \<in> set xs. \<forall>z \<in> f x. K z s'" "\<forall>z. K z s1 \<longrightarrow> K z s'"
    by blast
  have "for_each (x # xs) body s = Inr s'" using s1(1) s'(1) by simp
  moreover have "\<forall>y \<in> set (x # xs). \<forall>z \<in> f y. K z s'" using s1(3) s'(3,4) by auto
  moreover have "\<forall>z. K z s \<longrightarrow> K z s'" using s1(4) s'(4) by blast
  ultimately show ?case using s'(2) by blast
qed

lemma for_each_raises:
  assumes "P s" and "x \<in> set xs"
    and "\<And>y s. y \<in> set xs \<Longrightarrow> P s \<Longrightarrow> (\<exists>s'. body y s = Inr s' \<and> P s') \<or> body y s = Inl e"
    and "\<And>s. P s \<Longrightarrow> body x s = Inl e"
  shows "for_each xs body s = Inl e"
  using assms
proof (induction xs arbitrary: s)
  case Nil
  then show ?case by simp
next
  case (Cons y ys)
  show ?case
  proof (cases "body y s")
    case (Inl e')
    then have "e' = e" using Cons.prems(3) [of y s] Cons.prems(1) by auto
    then show ?thesis using Inl by simp
  next
    case (Inr s1)
    then have p1: "P s1" using Cons.prems(3) [of y s] Cons.prems(1) by auto
    have "x \<noteq> y" using Inr Cons.prems(4) [OF Cons.prems(1)] by auto
    then have x: "x \<in> set ys" using Cons.prems(2) by simp
    have "for_each ys body s1 = Inl e"
      using p1 x Cons.prems(3,4) by (intro Cons.IH) auto
    then show ?thesis using Inr by simp
  qed
qed

lemma item_cases: "(\<exists>x. item xs = Inr x) \<or> item xs = Inl ValueError"
  by (cases xs rule: item.cases) simp_all

lemma same_points_length: "same_points nb s \<Longrightarrow> length (gps_df s) = length (gps_df nb)"
  unfolding same_points_def by (metis length_map)

lemma same_points_nth:
  assumes "same_points nb s" "i < length (gps_df nb)"
  shows "gps_latitude (gps_df s ! i) = gps_latitude (gps_df nb ! i)"
    and "gps_longitude (gps_df s ! i) = gps_longitude (gps_df nb ! i)"
    and "gps_neighborhood (gps_df s ! i) = gps_neighborhood (gps_df nb ! i)"
proof -
  have l: "i < length (gps_df s)" using assms same_points_length by simp
  have "map gps_latitude (gps_df s) ! i = map gps_latitude (gps_df nb) ! i"
    using assms(1) by (simp add: same_points_def)
  then show "gps_latitude (gps_df s ! i) = gps_latitude (gps_df nb ! i)"
    using l assms(2) by simp
  have "map gps_longitude (gps_df s) ! i = map gps_longitude (gps_df nb) ! i"
    using assms(1) by (simp add: same_points_def)
  then show "gps_longitude (gps_df s ! i) = gps_longitude (gps_df nb ! i)"
    using l assms(2) by simp
  have "map gps_neighborhood (gps_df s) ! i = map gps_neighborhood (gps_df nb) ! i"
    using assms(1) by (simp add: same_points_def)
  then show "gps_neighborhood (gps_df s ! i) = gps_neighborhood (gps_df nb ! i)"
    using l assms(2) by simp
qed

lemma map_field_update:
  "f x = f (xs ! i) \<Longrightarrow> map f (xs[i := x]) = map f xs"
  by (metis list_update_id map_update)

lemma loc_set_radius_dollar_present:
  assumes "list_all (\<lambda>r. radius_dollar r c \<noteq> None) df" and "i < length df"
  shows "loc_set_radius_dollar df i c v
           = df[i := (df ! i)\<lparr>radius_dollar := (radius_dollar (df ! i))(c \<mapsto> Number v)\<rparr>]"
proof (rule nth_equalityI)
  show "length (loc_set_radius_dollar df i c v)
      = length (df[i := (df ! i)\<lparr>radius_dollar := (radius_dollar (df ! i))(c \<mapsto> Number v)\<rparr>])"
    by (simp add: loc_set_radius_dollar_def)
next
  fix j
  assume "j < length (loc_set_radius_dollar df i c v)"
  then have j: "j < length df" by (simp add: loc_set_radius_dollar_def)
  then have "radius_dollar (df ! j) c \<noteq> None" using assms(1) by (simp add: list_all_length)
  then show "loc_set_radius_dollar df i c v ! j
      = df[i := (df ! i)\<lparr>radius_dollar := (radius_dollar (df ! i))(c \<mapsto> Number v)\<rparr>] ! j"
    using j by (auto simp: loc_set_radius_dollar_def nth_list_update)
qed

lemma has_metric_columns_update:
  assumes "has_metric_columns df" "i < length df"
  shows "has_metric_columns (df[i := (df ! i)\<lparr>radius_dollar := (radius_dollar (df ! i))(c \<mapsto> Number v)\<rparr>])"
proof -
  have "\<forall>r \<in> set df. \<forall>k \<in> set metric_columns. radius_dollar r k \<noteq> None"
    using assms(1) by (simp add: has_metric_columns_def list_all_iff)
  moreover have "df ! i \<in> set df" using assms(2) by simp
  ultimately have "\<forall>r \<in> insert ((df ! i)\<lparr>radius_dollar := (radius_dollar (df ! i))(c \<mapsto> Number v)\<rparr>) (set df).
      \<forall>k \<in> set metric_columns. radius_dollar r k \<noteq> None"
    by auto
  then have "\<forall>r \<in> set (df[i := (df ! i)\<lparr>radius_dollar := (radius_dollar (df ! i))(c \<mapsto> Number v)\<rparr>]).
      \<forall>k \<in> set metric_columns. radius_dollar r k \<noteq> None"
    using set_update_subset_insert [of df i] by blast
  then show ?thesis by (simp add: has_metric_columns_def list_all_iff)
qed

lemma metric_step_fills:
  assumes inv: "same_points nb s \<and> has_metric_columns (gps_df s)"
    and i: "i < length (gps_df nb)"
    and c: "(radius, dollar) \<in> set metric_columns"
  shows "\<exists>s'. metric_step miles i dollar radius s = Inr s'
           \<and> (same_points nb s' \<and> has_metric_columns (gps_df s'))
           \<and> (\<forall>z \<in> {(i, dollar, radius)}. cell_filled miles nb s' z)
           \<and> (\<forall>z. cell_filled miles nb s z \<longrightarrow> cell_filled miles nb s' z)"
proof -
  have sp: "same_points nb s" and cols: "has_metric_columns (gps_df s)" using inv by simp_all
  have l: "i < length (gps_df s)" using sp i by (simp add: same_points_length)
  define p where "p = tier_share (records_within miles
      (gps_latitude (gps_df nb ! i), gps_longitude (gps_df nb ! i)) (yelp nb) radius) dollar"
  have y: "yelp s = yelp nb" using sp by (simp add: same_points_def)
  have loc: "(gps_latitude (gps_df s ! i), gps_longitude (gps_df s ! i))
               = (gps_latitude (gps_df nb ! i), gps_longitude (gps_df nb ! i))"
    using same_points_nth [OF sp i] by simp
  have call: "radius_dollar_proportion miles
       (gps_latitude (gps_df s ! i), gps_longitude (gps_df s ! i)) (yelp s) radius dollar = Inr p"
    by (simp add: p_def y loc rdp_share)
  have col: "list_all (\<lambda>r. radius_dollar r (radius, dollar) \<noteq> None) (gps_df s)"
    using cols c by (auto simp: has_metric_columns_def list_all_iff)
  define row where
    "row = (gps_df s ! i)\<lparr>radius_dollar := (radius_dollar (gps_df s ! i))((radius, dollar) \<mapsto> Number p)\<rparr>"
  define s' where "s' = s\<lparr>gps_df := (gps_df s)[i := row]\<rparr>"
  have step: "metric_step miles i dollar radius s = Inr s'"
    using l call loc_set_radius_dollar_present [OF col l, of p]
    by (simp add: metric_step_def loc_row_def s'_def row_def)
  have sp': "same_points nb s'"
    using sp by (simp add: same_points_def s'_def row_def map_field_update)
  have cols': "has_metric_columns (gps_df s')"
    using has_metric_columns_update [OF cols l] by (simp add: s'_def row_def)
  have new: "cell_filled miles nb s' (i, dollar, radius)"
    using l by (simp add: cell_filled_def s'_def row_def p_def)
  have old: "\<forall>z. cell_filled miles nb s z \<longrightarrow> cell_filled miles nb s' z"
  proof (intro allI impI)
    fix z assume z: "cell_filled miles nb s z"
    obtain j d r where zz: "z = (j, d, r)" by (cases z) auto
    show "cell_filled miles nb s' z"
    proof (cases "j = i")
      case False
      then show ?thesis using z by (simp add: zz cell_filled_def s'_def)
    next
      case True
      show ?thesis
      proof (cases "(r, d) = (radius, dollar)")
        case True
        then show ?thesis using new \<open>j = i\<close> by (simp add: zz)
      next
        case False
        then show ?thesis using z l \<open>j = i\<close>
          by (auto simp: zz cell_filled_def s'_def row_def)
      qed
    qed
  qed
  show ?thesis using step sp' cols' new old by blast
qed

lemma radius_loop_fills:
  assumes inv: "same_points nb s \<and> has_metric_columns (gps_df s)"
    and i: "i < length (gps_df nb)"
    and d: "dollar \<in> set [1, 2, 3, 4]"
  shows "\<exists>s'. for_each [1 / 2, 1] (\<lambda>radius. metric_step miles i dollar radius) s = Inr s'
           \<and> (same_points nb s' \<and> has_metric_columns (gps_df s'))
           \<and> (\<forall>radius \<in> set [1 / 2, 1]. \<forall>z \<in> {(i, dollar, radius)}. cell_filled miles nb s' z)
           \<and> (\<forall>z. cell_filled miles nb s z \<longrightarrow> cell_filled miles nb s' z)"
proof (rule for_each_collect [where P = "\<lambda>s. same_points nb s \<and> has_metric_columns (gps_df s)"])
  show "same_points nb s \<and> has_metric_columns (gps_df s)" by (rule inv)
next
  fix radius :: rat and s
  assume r: "radius \<in> set [1 / 2, 1]" and inv': "same_points nb s \<and> has_metric_columns (gps_df s)"
  have "(radius, dollar) \<in> set metric_columns"
    using r d by (auto simp: metric_columns_def)
  then show "\<exists>s'. metric_step miles i dollar radius s = Inr s'
           \<and> (same_points nb s' \<and> has_metric_columns (gps_df s'))
           \<and> (\<forall>z \<in> {(i, dollar, radius)}. cell_filled miles nb s' z)
           \<and> (\<forall>z. cell_filled miles nb s z \<longrightarrow> cell_filled miles nb s' z)"
    using inv' i by (intro metric_step_fills)
qed

lemma dollar_loop_fills:
  assumes inv: "same_points nb s \<and> has_metric_columns (gps_df s)"
    and i: "i < length (gps_df nb)"
  shows "\<exists>s'. for_each [1, 2, 3, 4]
                 (\<lambda>dollar. for_each [1 / 2, 1] (\<lambda>radius. metric_step miles i dollar radius)) s = Inr s'
           \<and> (same_points nb s' \<and> has_metric_columns (gps_df s'))
           \<and> (\<forall>dollar \<in> set [1, 2, 3, 4]. \<forall>z \<in> {(i, dollar, radius) | radius. radius \<in> set [1 / 2, 1]}.
                 cell_filled miles nb s' z)
           \<and> (\<forall>z. cell_filled miles nb s z \<longrightarrow> cell_filled miles nb s' z)"
proof (rule for_each_collect [where P = "\<lambda>s. same_points nb s \<and> has_metric_columns (gps_df s)"])
  show "same_points nb s \<and> has_metric_columns (gps_df s)" by (rule inv)
next
  fix dollar :: int and s
  assume d: "dollar \<in> set [1, 2, 3, 4]" and inv': "same_points nb s \<and> has_metric_columns (gps_df s)"
  show "\<exists>s'. for_each [1 / 2, 1] (\<lambda>radius. metric_step miles i dollar radius) s = Inr s'
           \<and> (same_points nb s' \<and> has_metric_columns (gps_df s'))
           \<and> (\<forall>z \<in> {(i, dollar, radius) | radius. radius \<in> set [1 / 2, 1]}. cell_filled miles nb s' z)
           \<and> (\<forall>z. cell_filled miles nb s z \<longrightarrow> cell_filled miles nb s' z)"
    using radius_loop_fills [OF inv' i d, of miles] by blast
qed

lemma populate_metrics_fills:
  assumes "has_metric_columns (gps_df nb)"
  shows "\<exists>s'. populate_metrics miles nb = Inr s'
           \<and> (same_points nb s' \<and> has_metric_columns (gps_df s'))
           \<and> (\<forall>i \<in> set [0..<length (gps_df nb)].
                 \<forall>z \<in> {(i, dollar, radius) | dollar radius. dollar \<in> set [1, 2, 3, 4] \<and> radius \<in> set [1 / 2, 1]}.
                   cell_filled miles nb s' z)"
proof -
  have "\<exists>s'. for_each [0..<length (gps_df nb)]
                 (\<lambda>i. for_each [1, 2, 3, 4]
                    (\<lambda>dollar. for_each [1 / 2, 1] (\<lambda>radius. metric_step miles i dollar radius))) nb = Inr s'
           \<and> (same_points nb s' \<and> has_metric_columns (gps_df s'))
           \<and> (\<forall>i \<in> set [0..<length (gps_df nb)].
                 \<forall>z \<in> {(i, dollar, radius) | dollar radius. dollar \<in> set [1, 2, 3, 4] \<and> radius \<in> set [1 / 2, 1]}.
                   cell_filled miles nb s' z)
           \<and> (\<forall>z. cell_filled miles nb nb z \<longrightarrow> cell_filled miles nb s' z)"
  proof (rule for_each_collect [where P = "\<lambda>s. same_points nb s \<and> has_metric_columns (gps_df s)"])
    show "same_points nb nb \<and> has_metric_columns (gps_df nb)"
      using assms by (simp add: same_points_def)
  next
    fix i s
    assume i: "i \<in> set [0..<length (gps_df nb)]"
      and inv': "same_points nb s \<and> has_metric_columns (gps_df s)"
    have i': "i < length (gps_df nb)" using i by simp
    show "\<exists>s'. for_each [1, 2, 3, 4]
                 (\<lambda>dollar. for_each [1 / 2, 1] (\<lambda>radius. metric_step miles i dollar radius)) s = Inr s'
           \<and> (same_points nb s' \<and> has_metric_columns (gps_df s'))
           \<and> (\<forall>z \<in> {(i, dollar, radius) | dollar radius. dollar \<in> set [1, 2, 3, 4] \<and> radius \<in> set [1 / 2, 1]}.
                 cell_filled miles nb s' z)
           \<and> (\<forall>z. cell_filled miles nb s z \<longrightarrow> cell_filled miles nb s' z)"
      using dollar_loop_fills [OF inv' i', of miles] by blast
  qed
  then show ?thesis unfolding populate_metrics_def by blast
qed

lemma with_regions_columns:
  "has_metric_columns (gps_df nb) \<Longrightarrow> has_metric_columns (gps_df (with_regions g h nb))"
  by (simp add: has_metric_columns_def with_regions_def list_all_iff)

lemma with_regions_share:
  "tier_share (records_within miles
       (gps_latitude (gps_df (with_regions g h nb) ! i), gps_longitude (gps_df (with_regions g h nb) ! i))
       (yelp (with_regions g h nb)) radius) t
   = (if i < length (gps_df nb)
      then tier_share (records_within miles
             (gps_latitude (gps_df nb ! i), gps_longitude (gps_df nb ! i)) (yelp nb) radius) t
      else tier_share (records_within miles
             (gps_latitude (gps_df (with_regions g h nb) ! i),
              gps_longitude (gps_df (with_regions g h nb) ! i))
             (yelp nb) radius) t)"
  by (simp add: with_regions_def tier_share_ignores_cra)

lemma demographics_step_cases:
  assumes sp: "same_points nb s" and i: "i < length (gps_df nb)"
  shows "(\<exists>s'. demographics_step i s = Inr s' \<and> same_points nb s')
         \<or> demographics_step i s = Inl ValueError"
proof -
  have l: "i < length (gps_df s)" using sp i by (simp add: same_points_length)
  let ?m = "filter (\<lambda>r. neighborhood r = gps_neighborhood (gps_df s ! i)) (seattle_rent s)"
  consider (a) "item (map median_income ?m) = Inl ValueError"
    | (b) income where "item (map median_income ?m) = Inr income"
        "item (map median_rent ?m) = Inl ValueError"
    | (c) income rent where "item (map median_income ?m) = Inr income"
        "item (map median_rent ?m) = Inr rent" "item (map median_home_value ?m) = Inl ValueError"
    | (d) income rent home where "item (map median_income ?m) = Inr income"
        "item (map median_rent ?m) = Inr rent" "item (map median_home_value ?m) = Inr home"
    using item_cases [of "map median_income ?m"] item_cases [of "map median_rent ?m"]
      item_cases [of "map median_home_value ?m"]
    by blast
  then show ?thesis
  proof cases
    case a
    then show ?thesis using l by (simp add: demographics_step_def loc_row_def Let_def)
  next
    case b
    then show ?thesis using l by (simp add: demographics_step_def loc_row_def Let_def)
  next
    case c
    then show ?thesis using l by (simp add: demographics_step_def loc_row_def Let_def)
  next
    case d
    let ?row = "(gps_df s ! i)\<lparr>gps_median_income := income, gps_median_rent := rent,
                   gps_median_home_value := home\<rparr>"
    have "demographics_step i s = Inr (s\<lparr>gps_df := (gps_df s)[i := ?row]\<rparr>)"
      using d l by (simp add: demographics_step_def loc_row_def Let_def)
    moreover have "same_points nb (s\<lparr>gps_df := (gps_df s)[i := ?row]\<rparr>)"
      using sp by (simp add: same_points_def map_field_update)
    ultimately show ?thesis by blast
  qed
qed

lemma demographics_step_unmatched:
  assumes sp: "same_points nb s" and i: "i < length (gps_df nb)"
    and u: "filter (\<lambda>r. neighborhood r = gps_neighborhood (gps_df nb ! i)) (seattle_rent nb) = []"
  shows "demographics_step i s = Inl ValueError"
proof -
  have l: "i < length (gps_df s)" using sp i by (simp add: same_points_length)
  have n: "gps_neighborhood (gps_df s ! i) = gps_neighborhood (gps_df nb ! i)"
    using same_points_nth(3) [OF sp i] .
  have r: "seattle_rent s = seattle_rent nb" using sp by (simp add: same_points_def)
  show ?thesis using l u by (simp add: demographics_step_def loc_row_def Let_def n r)
qed

section \<open>Properties of the body run name by name\<close>

lemma and_then_Inr [simp]: "and_then (Inr x) f = f x"
  by (simp add: and_then_def)

lemma and_then_Inl [simp]: "and_then (Inl e) f = Inl e"
  by (simp add: and_then_def)

lemma py_range_int: "py_range (int n) = map int [0..<n]"
proof (induction n)
  case 0
  then show ?case by (simp add: py_range_def)
next
  case (Suc n)
  have "[0..int (Suc n) - 1] = [0..int n - 1] @ [int n]"
    using upto_rec2 [of 0 "int n"] by simp
  then show ?case using Suc by (simp add: py_range_def)
qed

lemma read_local: "locals s x = Some v \<Longrightarrow> read x s = Inr v"
  by (simp add: read_def)

lemma scanning_bind:
  assumes "scanning location df radius t g acc s"
    and "x \<notin> {''location'', ''df'', ''radius'', ''dollar_tier'', ''length'', ''indices''}"
  shows "scanning location df radius t g acc (bind_local x v s)"
  using assms by (auto simp: scanning_def bind_local_def)

lemma scanning_append:
  assumes "scanning location df radius t g acc s"
  shows "scanning location df radius t g (acc @ [i]) (bind_local ''indices'' (VList (map int acc @ [int i])) s)"
  using assms by (simp add: scanning_def bind_local_def)

lemma scan_step_scanning:
  assumes inv: "scanning location df radius t g acc s" and i: "i < length df"
  shows "\<exists>s'. scan_step miles (int i) s = Inr s'
           \<and> scanning location df radius t g
                (if miles location (latitude (df ! i), longitude (df ! i)) \<le> radius
                 then acc @ [i] else acc) s'"
proof -
  define s1 where "s1 = bind_local ''i'' (VInt (int i)) s"
  have inv1: "scanning location df radius t g acc s1"
    unfolding s1_def using inv by (rule scanning_bind) simp
  have i1: "locals s1 ''i'' = Some (VInt (int i))" by (simp add: s1_def bind_local_def)
  define s2 where
    "s2 = bind_local ''coordinates'' (VCoordinate (latitude (df ! i), longitude (df ! i))) s1"
  have c: "assign_coordinates s1 = Inr s2"
    using inv1 i1 i
    by (simp add: assign_coordinates_def scanning_def read_local as_frame_def as_int_def
        loc_int_def loc_row_def s2_def)
  have inv2: "scanning location df radius t g acc s2"
    unfolding s2_def using inv1 by (rule scanning_bind) simp
  have i2: "locals s2 ''i'' = Some (VInt (int i))"
    using i1 by (simp add: s2_def bind_local_def)
  have c2: "locals s2 ''coordinates'' = Some (VCoordinate (latitude (df ! i), longitude (df ! i)))"
    by (simp add: s2_def bind_local_def)
  show ?thesis
  proof (cases "miles location (latitude (df ! i), longitude (df ! i)) \<le> radius")
    case True
    have "append_if_near miles s2
            = Inr (bind_local ''indices'' (VList (map int acc @ [int i])) s2)"
      using inv2 i2 c2 True
      by (simp add: append_if_near_def scanning_def read_local as_coordinate_def as_number_def
          as_list_def as_int_def)
    then show ?thesis
      using True c scanning_append [OF inv2, of i] by (simp add: scan_step_def s1_def)
  next
    case False
    have "append_if_near miles s2 = Inr s2"
      using inv2 c2 False
      by (simp add: append_if_near_def scanning_def read_local as_coordinate_def as_number_def)
    then show ?thesis using False c inv2 by (simp add: scan_step_def s1_def)
  qed
qed

lemma scan_loop_from:
  assumes "scanning location df radius t g acc s"
  shows "\<exists>s'. for_each (map int [i..<length df]) (scan_step miles) s = Inr s'
           \<and> scanning location df radius t g (radius_scan miles location df radius i acc) s'"
  using assms
proof (induction miles location df radius i acc arbitrary: s rule: radius_scan.induct)
  case (1 miles location df radius i indices)
  show ?case
  proof (cases "i < length df")
    case False
    then show ?thesis using "1.prems" by (subst radius_scan.simps) simp
  next
    case True
    then have up: "[i..<length df] = i # [Suc i..<length df]" by (simp add: upt_conv_Cons)
    obtain s1 where s1: "scan_step miles (int i) s = Inr s1"
        "scanning location df radius t g
           (if miles location (latitude (df ! i), longitude (df ! i)) \<le> radius
            then indices @ [i] else indices) s1"
      using scan_step_scanning [OF "1.prems" True, of miles] by blast
    show ?thesis
    proof (cases "miles location (latitude (df ! i), longitude (df ! i)) \<le> radius")
      case near: True
      then have "scanning location df radius t g (indices @ [i]) s1" using s1(2) by simp
      then obtain s' where "for_each (map int [Suc i..<length df]) (scan_step miles) s1 = Inr s'"
          "scanning location df radius t g
             (radius_scan miles location df radius (Suc i) (indices @ [i])) s'"
        using "1.IH"(1) [OF True near] by blast
      then show ?thesis using s1(1) True near by (subst radius_scan.simps) (simp add: up)
    next
      case far: False
      then have "scanning location df radius t g indices s1" using s1(2) by simp
      then obtain s' where "for_each (map int [Suc i..<length df]) (scan_step miles) s1 = Inr s'"
          "scanning location df radius t g
             (radius_scan miles location df radius (Suc i) indices) s'"
        using "1.IH"(2) [OF True far] by blast
      then show ?thesis using s1(1) True far by (subst radius_scan.simps) (simp add: up)
    qed
  qed
qed

lemma scan_loop_scanning:
  assumes "scanning location df radius t g [] s"
  shows "\<exists>s'. scan_loop miles s = Inr s'
           \<and> scanning location df radius t g (radius_scan miles location df radius 0 []) s'"
proof -
  have "scan_loop miles s = for_each (map int [0..<length df]) (scan_step miles) s"
    using assms by (simp add: scan_loop_def scanning_def read_local as_int_def py_range_int)
  then show ?thesis using scan_loop_from [OF assms, of 0 miles] by simp
qed

lemma iloc_positions:
  "\<forall>j \<in> set js. j < length df \<Longrightarrow> iloc df (map int js) = Inr (map (\<lambda>j. df ! j) js)"
  by (induction js) (simp_all add: iloc_row_def)

lemma radius_scan_in_range:
  "\<forall>j \<in> set (radius_scan miles location df radius 0 []). j < length df"
  by (simp add: radius_scan_filter)

lemma assign_proportion_scanning:
  assumes inv: "scanning location df radius t g (radius_scan miles location df radius 0 []) s"
  shows "\<exists>s' p. assign_proportion s = Inr s' \<and> globals s' = g
           \<and> radius_dollar_proportion miles location df radius t = Inr p
           \<and> read ''proportion'' s' = Inr (if radius_scan miles location df radius 0 [] = []
                                              then VInt 0 else VFloat p)"
proof (cases "radius_scan miles location df radius 0 [] = []")
  case True
  have "assign_proportion s = Inr (bind_local ''proportion'' (VInt 0) s)"
    using inv True by (simp add: assign_proportion_def scanning_def read_local as_list_def)
  moreover have "globals (bind_local ''proportion'' (VInt 0) s) = g"
    using inv by (simp add: scanning_def bind_local_def)
  moreover have "read ''proportion'' (bind_local ''proportion'' (VInt 0) s) = Inr (VInt 0)"
    by (simp add: read_def bind_local_def)
  moreover have "radius_dollar_proportion miles location df radius t = Inr 0"
    using True by (simp add: radius_dollar_proportion_def)
  ultimately show ?thesis using True by simp
next
  case False
  let ?ix = "radius_scan miles location df radius 0 []"
  let ?rows = "map (\<lambda>j. df ! j) ?ix"
  obtain p where p: "radius_dollar_proportion miles location df radius t = Inr p"
    using rdp_total by blast
  then have q: "truediv (length (filter (\<lambda>r. price r = t) ?rows)) (length ?ix) = Inr p"
    using False by (simp add: radius_dollar_proportion_def Let_def)
  define s1 where "s1 = bind_local ''surrounding_businesses'' (VFrame ?rows) s"
  define s2 where "s2 = bind_local ''total_businesses'' (VInt (int (length ?rows))) s1"
  define s3 where "s3 = bind_local ''proportion'' (VFloat p) s2"
  have a1: "assign_surrounding s = Inr s1"
    using inv iloc_positions [OF radius_scan_in_range]
    by (simp add: assign_surrounding_def scanning_def read_local as_frame_def as_list_def s1_def)
  have l1: "locals s1 ''surrounding_businesses'' = Some (VFrame ?rows)"
    by (simp add: s1_def bind_local_def)
  have a2: "assign_total s1 = Inr s2"
    using l1 by (simp add: assign_total_def read_local as_frame_def s2_def)
  have l2: "locals s2 ''surrounding_businesses'' = Some (VFrame ?rows)"
      "locals s2 ''total_businesses'' = Some (VInt (int (length ?rows)))"
      "locals s2 ''dollar_tier'' = Some (VInt t)"
    using inv by (simp_all add: s2_def s1_def bind_local_def scanning_def)
  have a3: "assign_quotient s2 = Inr s3"
    using l2 q by (simp add: assign_quotient_def read_local as_frame_def as_int_def s3_def)
  have "assign_proportion s = Inr s3"
    using inv False a1 a2 a3
    by (simp add: assign_proportion_def scanning_def read_local as_list_def)
  moreover have "globals s3 = g"
    using inv by (simp add: s3_def s2_def s1_def bind_local_def scanning_def)
  moreover have "read ''proportion'' s3 = Inr (VFloat p)"
    by (simp add: read_def s3_def bind_local_def)
  ultimately show ?thesis using False p by simp
qed

lemma call_is_function:
  "\<exists>p. radius_dollar_proportion miles location df radius t = Inr p
       \<and> call_radius_dollar_proportion miles location df radius t g = Inr (p, g)"
proof -
  define s0 :: scope where
    "s0 = \<lparr>locals = [''location'' \<mapsto> VCoordinate location, ''df'' \<mapsto> VFrame df,
                     ''radius'' \<mapsto> VFloat radius, ''dollar_tier'' \<mapsto> VInt t],
           globals = g\<rparr>"
  define s1 where "s1 = bind_local ''length'' (VInt (int (length df))) s0"
  define s2 where "s2 = bind_local ''indices'' (VList []) s1"
  have a1: "assign_length s0 = Inr s1"
    by (simp add: assign_length_def read_def as_frame_def s0_def s1_def)
  have inv: "scanning location df radius t g [] s2"
    by (simp add: scanning_def s2_def s1_def s0_def bind_local_def)
  obtain s3 where s3: "scan_loop miles s2 = Inr s3"
      "scanning location df radius t g (radius_scan miles location df radius 0 []) s3"
    using scan_loop_scanning [OF inv, of miles] by blast
  obtain s4 p where s4: "assign_proportion s3 = Inr s4" "globals s4 = g"
      "radius_dollar_proportion miles location df radius t = Inr p"
      "read ''proportion'' s4 = Inr (if radius_scan miles location df radius 0 [] = []
                                       then VInt 0 else VFloat p)"
    using assign_proportion_scanning [OF s3(2)] by blast
  have num: "as_number (if radius_scan miles location df radius 0 [] = []
                        then VInt 0 else VFloat p) = Inr p"
  proof (cases "radius_scan miles location df radius 0 [] = []")
    case True
    then have "p = 0" using s4(3) by (simp add: radius_dollar_proportion_def)
    then show ?thesis using True by (simp add: as_number_def)
  next
    case False
    then show ?thesis by (simp add: as_number_def)
  qed
  have "run_body miles s0 = Inr (p, s4)"
    using a1 s3(1) s4(1,4) num by (simp add: run_body_def s2_def)
  then have "call_radius_dollar_proportion miles location df radius t g = Inr (p, g)"
    using s4(2) by (simp add: call_radius_dollar_proportion_def s0_def)
  then show ?thesis using s4(3) by blast
qed

section \<open>Evaluations on the sample data\<close>

lemma ex_within_far: "records_within example_miles (47, - 122) example_yelp (1 / 8) = []"
  by (simp add: records_within_def example_yelp_def example_miles_def)

lemma ex_interbay: "filter (\<lambda>r. cra r = ''Interbay'') example_yelp = []"
  by (simp add: example_yelp_def)

lemma ex_columns: "list_all (\<lambda>r. tier_dollar r 3 \<noteq> None) example_seattle"
  by (simp add: example_seattle_def)

lemma ex_columns_2: "list_all (\<lambda>r. tier_dollar r 2 \<noteq> None) example_seattle"
  by (simp add: example_seattle_def)

lemma ex_within_half:
  "records_within example_miles (47, - 122) example_yelp (1 / 2) = [example_yelp ! 0]"
  by (simp add: records_within_def example_yelp_def example_miles_def)

lemma ex_within_one:
  "records_within example_miles (47, - 122) example_yelp 1 = [example_yelp ! 0, example_yelp ! 1]"
  by (simp add: records_within_def example_yelp_def example_miles_def)

lemma ex_share_half: "tier_share (records_within example_miles (47, - 122) example_yelp (1 / 2)) 2 = 1"
  by (subst ex_within_half) (simp add: tier_share_def example_yelp_def fl_one)

lemma ex_share_one: "tier_share (records_within example_miles (47, - 122) example_yelp 1) 1 = 0"
  by (subst ex_within_one) (simp add: tier_share_def example_yelp_def fl_def)

lemma ex_ballard_share: "tier_share (filter (\<lambda>r. cra r = ''Ballard'') example_yelp) 7 = 0"
  by (simp add: tier_share_def example_yelp_def fl_def)

lemma ex_scan_half: "radius_scan example_miles (47, - 122) example_yelp (1 / 2) 0 [] = [0]"
  by (simp add: radius_scan_filter example_yelp_def example_miles_def upt_conv_Cons)

lemma ex_scan_one: "radius_scan example_miles (47, - 122) example_yelp 1 0 [] = [0, 1]"
  by (simp add: radius_scan_filter example_yelp_def example_miles_def upt_conv_Cons)

lemma ex_six_within: "records_within example_miles (47, - 122) example_six 1 = example_six"
  by (simp add: records_within_def example_six_def example_miles_def)

lemma ex_six_prices: "map price example_six = [2, 3, 3, 3, 3, 4]"
  by (simp add: example_six_def)

lemma ex_six_sum:
  "proportion_sum example_miles (47, - 122) example_six 1
     = Inr (18014398509481983 / 18014398509481984)"
  by code_simp

lemma ex_six_float_sum:
  "proportion_float_sum example_miles (47, - 122) example_six 1
     = Inr (9007199254740991 / 9007199254740992)"
  by code_simp

lemma ex_gps_columns: "has_metric_columns (gps_df example_notebook)"
  by (simp add: has_metric_columns_def example_notebook_def example_gps_def filler_columns_def
      metric_columns_def)

lemma ex_point:
  "length (gps_df example_notebook) = 1"
  "gps_latitude (gps_df example_notebook ! 0) = 47"
  "gps_longitude (gps_df example_notebook ! 0) = - 122"
  "gps_neighborhood (gps_df example_notebook ! 0) = ''Interbay''"
  "yelp example_notebook = example_yelp"
  by (simp_all add: example_notebook_def example_gps_def)

lemma ex_rdp_one: "radius_dollar_proportion example_miles (47, - 122) example_yelp 1 2 = Inr 1"
proof -
  have w: "records_within example_miles (47, - 122) example_yelp 1 = [example_yelp ! 0, example_yelp ! 1]"
    by (simp add: records_within_def example_yelp_def example_miles_def)
  have ne: "records_within example_miles (47, - 122) example_yelp 1 \<noteq> []"
    by (simp add: w)
  have c: "length (filter (\<lambda>r. price r = 2) (records_within example_miles (47, - 122) example_yelp 1)) = 2"
    by (subst w) (simp add: example_yelp_def)
  have n: "length (records_within example_miles (47, - 122) example_yelp 1) = 2"
    by (simp add: w)
  show ?thesis using rdp_nonempty [OF ne, of 2] by (simp add: c n fl_one)
qed

lemma ex_unmatched:
  "length (gps_df example_unmatched) = 2"
  "gps_neighborhood (gps_df example_unmatched ! 1) = ''Georgetown''"
  "map neighborhood (seattle_rent example_unmatched) = [''Ballard'', ''Interbay'']"
  by (simp_all add: example_unmatched_def example_gps_def example_seattle_def)

lemma ex_join:
  "\<exists>nb'. demographics_join example_notebook = Inr nb'
     \<and> map gps_median_income (gps_df nb') = [74679]
     \<and> map gps_median_rent (gps_df nb') = [1490]
     \<and> map gps_median_home_value (gps_df nb') = [571300]"
  by (simp add: demographics_join_def demographics_step_def loc_row_def example_notebook_def
      example_gps_def example_seattle_def Let_def)

section \<open>The claims\<close>

text \<open>
  Claim C1. When no business lies within the radius of the point, the proportion is
  exactly 0 for every tier: the guard on the empty selection returns 0 and the division
  is not reached, so the result is neither an error nor a NaN. In the same way
  \<open>dollar_rating\<close> writes 0 into the tier's column of every row of a neighborhood
  without businesses, when the frame has that column.
\<close>

theorem empty_selection_proportion_zero:
  "(records_within miles location df radius = [] \<longrightarrow>
      radius_dollar_proportion miles location df radius t = Inr 0)
   \<and> (filter (\<lambda>r. cra r = nbhd) yelp_df = []
        \<and> list_all (\<lambda>r. tier_dollar r t \<noteq> None) seattle_df \<longrightarrow>
      dollar_rating seattle_df yelp_df nbhd t =
        Inr (map (\<lambda>r. if neighborhood r = nbhd
                       then r\<lparr>tier_dollar := (tier_dollar r)(t \<mapsto> Number 0)\<rparr> else r)
               seattle_df,
             yelp_df))"
proof (intro conjI impI)
  assume "records_within miles location df radius = []"
  then show "radius_dollar_proportion miles location df radius t = Inr 0"
    by (rule rdp_empty)
next
  assume a: "filter (\<lambda>r. cra r = nbhd) yelp_df = []
        \<and> list_all (\<lambda>r. tier_dollar r t \<noteq> None) seattle_df"
  then have "tier_share (filter (\<lambda>r. cra r = nbhd) yelp_df) t = 0"
    by (simp add: tier_share_def)
  then show "dollar_rating seattle_df yelp_df nbhd t =
        Inr (map (\<lambda>r. if neighborhood r = nbhd
                       then r\<lparr>tier_dollar := (tier_dollar r)(t \<mapsto> Number 0)\<rparr> else r)
               seattle_df,
             yelp_df)"
    using a by (simp add: dollar_rating_result loc_set_dollar_present)
qed

theorem empty_selection_proportion_zero_witness:
  "records_within example_miles (47, - 122) example_yelp (1 / 8) = []
   \<and> radius_dollar_proportion example_miles (47, - 122) example_yelp (1 / 8) 3 = Inr 0
   \<and> filter (\<lambda>r. cra r = ''Interbay'') example_yelp = []
   \<and> list_all (\<lambda>r. tier_dollar r 3 \<noteq> None) example_seattle
   \<and> (\<exists>s. dollar_rating example_seattle example_yelp ''Interbay'' 3 = Inr (s, example_yelp)
          \<and> map neighborhood s = [''Ballard'', ''Interbay'']
          \<and> tier_dollar (s ! 1) 3 = Some (Number 0))"
  using empty_selection_proportion_zero
    [of example_miles "(47, - 122)" example_yelp "1 / 8" 3 "''Interbay''" example_yelp example_seattle]
    ex_within_far ex_interbay ex_columns
  by (simp add: example_seattle_def)

text \<open>
  Claim C2. Each proportion is a quotient rounded to a float, so the four proportions
  around a point need not add up to 1: for six businesses of tiers 2, 3, 3, 3, 3 and 4
  the sum is \<open>1 - 2 ^ - 54\<close>, and \<open>1 - 2 ^ - 53\<close> when Python adds them
  (\<open>proportion_sum_not_one\<close> below). What holds: when some business lies within the
  radius and every selected business has a tier from 1 to 4, the sum of the four
  proportions differs from 1 by at most \<open>2 ^ - 52\<close>; when no business lies within the
  radius the sum is 0.
\<close>

theorem proportion_sum_near_one:
  "(records_within miles location df radius \<noteq> []
      \<and> (\<forall>r \<in> set (records_within miles location df radius). price r \<in> {1, 2, 3, 4}) \<longrightarrow>
    (\<exists>s. proportion_sum miles location df radius = Inr s \<and> \<bar>s - 1\<bar> \<le> 1 / 2 ^ 52))
   \<and> (records_within miles location df radius = [] \<longrightarrow>
        proportion_sum miles location df radius = Inr 0)"
proof (intro conjI impI)
  assume "records_within miles location df radius = []"
  then have "\<And>t. radius_dollar_proportion miles location df radius t = Inr 0"
    by (rule rdp_empty)
  then show "proportion_sum miles location df radius = Inr 0"
    by (simp add: proportion_sum_def)
next
  let ?sel = "records_within miles location df radius"
  let ?n = "length ?sel"
  let ?c = "\<lambda>t. length (filter (\<lambda>r. price r = t) ?sel)"
  let ?q = "\<lambda>t. (of_nat (?c t) / of_nat ?n :: rat)"
  assume a: "?sel \<noteq> [] \<and> (\<forall>r \<in> set ?sel. price r \<in> {1, 2, 3, 4})"
  then have ne: "?sel \<noteq> []" and tiers: "\<forall>r \<in> set ?sel. price r \<in> {1, 2, 3, 4}"
    by simp_all
  have pos: "0 < ?n" using ne by simp
  have r: "\<And>t. radius_dollar_proportion miles location df radius t = Inr (fl (?q t))"
    using ne by (rule rdp_nonempty)
  have s: "proportion_sum miles location df radius
             = Inr (fl (?q 1) + fl (?q 2) + fl (?q 3) + fl (?q 4))"
    by (rule proportion_sum_unfold) (rule r)+
  have e: "\<And>t. \<bar>fl (?q t) - ?q t\<bar> \<le> 1 / 2 ^ 54"
  proof -
    fix t
    have "?c t \<le> ?n" by (rule length_filter_le)
    then have "0 \<le> ?q t" "?q t \<le> 1" using pos by simp_all
    then show "\<bar>fl (?q t) - ?q t\<bar> \<le> 1 / 2 ^ 54" by (rule fl_error)
  qed
  have "?c 1 + ?c 2 + ?c 3 + ?c 4 = ?n" using tiers by (rule tier_counts)
  then have "(of_nat (?c 1 + ?c 2 + ?c 3 + ?c 4) :: rat) = of_nat ?n" by simp
  then have "(of_nat (?c 1) + of_nat (?c 2) + of_nat (?c 3) + of_nat (?c 4) :: rat) = of_nat ?n"
    by simp
  then have one: "?q 1 + ?q 2 + ?q 3 + ?q 4 = 1"
    using pos by (simp add: add_divide_distrib [symmetric])
  have "\<bar>fl (?q 1) + fl (?q 2) + fl (?q 3) + fl (?q 4) - 1\<bar>
        = \<bar>(fl (?q 1) - ?q 1) + (fl (?q 2) - ?q 2) + (fl (?q 3) - ?q 3) + (fl (?q 4) - ?q 4)\<bar>"
    using one by (simp add: algebra_simps)
  also have "\<dots> \<le> \<bar>fl (?q 1) - ?q 1\<bar> + \<bar>fl (?q 2) - ?q 2\<bar> + \<bar>fl (?q 3) - ?q 3\<bar> + \<bar>fl (?q 4) - ?q 4\<bar>"
    by linarith
  also have "\<dots> \<le> 1 / 2 ^ 54 + 1 / 2 ^ 54 + 1 / 2 ^ 54 + 1 / 2 ^ 54"
    using e [of 1] e [of 2] e [of 3] e [of 4] by linarith
  also have "\<dots> = (1 / 2 ^ 52 :: rat)" by simp
  finally show "\<exists>s. proportion_sum miles location df radius = Inr s \<and> \<bar>s - 1\<bar> \<le> 1 / 2 ^ 52"
    using s by blast
qed

theorem proportion_sum_near_one_witness:
  "records_within example_miles (47, - 122) example_six 1 \<noteq> []
   \<and> map price (records_within example_miles (47, - 122) example_six 1) = [2, 3, 3, 3, 3, 4]
   \<and> (\<exists>s. proportion_sum example_miles (47, - 122) example_six 1 = Inr s \<and> \<bar>s - 1\<bar> \<le> 1 / 2 ^ 52)
   \<and> records_within example_miles (47, - 122) example_yelp (1 / 8) = []
   \<and> proportion_sum example_miles (47, - 122) example_yelp (1 / 8) = Inr 0"
proof -
  have ne: "records_within example_miles (47, - 122) example_six 1 \<noteq> []"
    by (subst ex_six_within) (simp add: example_six_def)
  have tiers: "\<forall>r \<in> set (records_within example_miles (47, - 122) example_six 1). price r \<in> {1, 2, 3, 4}"
    by (subst ex_six_within) (simp add: example_six_def)
  have prices: "map price (records_within example_miles (47, - 122) example_six 1) = [2, 3, 3, 3, 3, 4]"
    by (simp only: ex_six_within ex_six_prices)
  show ?thesis
    using proportion_sum_near_one [of example_miles "(47, - 122)" example_six 1]
      proportion_sum_near_one [of example_miles "(47, - 122)" example_yelp "1 / 8"]
      ne tiers prices ex_within_far
    by blast
qed

theorem proportion_sum_not_one:
  "records_within example_miles (47, - 122) example_six 1 = example_six
   \<and> map price example_six = [2, 3, 3, 3, 3, 4]
   \<and> proportion_sum example_miles (47, - 122) example_six 1
        = Inr (18014398509481983 / 18014398509481984)
   \<and> proportion_sum example_miles (47, - 122) example_six 1 \<noteq> Inr 1
   \<and> proportion_float_sum example_miles (47, - 122) example_six 1
        = Inr (9007199254740991 / 9007199254740992)
   \<and> proportion_float_sum example_miles (47, - 122) example_six 1 \<noteq> Inr 1"
  by (simp add: ex_six_within ex_six_prices ex_six_sum ex_six_float_sum)

text \<open>
  Claim C3. When some business lies within the radius, the proportion is the number of
  selected businesses of the tier divided, by Python's \<^verbatim>\<open>/\<close>, by the number of
  selected businesses. The result is a float between 0 and 1, at most \<open>2 ^ - 54\<close> away
  from the exact quotient.
\<close>

theorem proportion_is_count_ratio:
  assumes "records_within miles location df radius \<noteq> []"
  shows "radius_dollar_proportion miles location df radius t =
           truediv (length (filter (\<lambda>r. price r = t) (records_within miles location df radius)))
                   (length (records_within miles location df radius))
         \<and> (\<exists>p. radius_dollar_proportion miles location df radius t = Inr p
                \<and> 0 \<le> p \<and> p \<le> 1
                \<and> \<bar>p - of_nat (length (filter (\<lambda>r. price r = t) (records_within miles location df radius)))
                        / of_nat (length (records_within miles location df radius))\<bar> \<le> 1 / 2 ^ 54)"
proof -
  let ?sel = "records_within miles location df radius"
  let ?c = "length (filter (\<lambda>r. price r = t) ?sel)"
  let ?q = "(of_nat ?c / of_nat (length ?sel) :: rat)"
  have le: "?c \<le> length ?sel" by (rule length_filter_le)
  have pos: "0 < length ?sel" using assms by simp
  have q: "0 \<le> ?q" "?q \<le> 1" using le pos by simp_all
  have r: "radius_dollar_proportion miles location df radius t = Inr (fl ?q)"
    using assms by (rule rdp_nonempty)
  have d: "truediv ?c (length ?sel) = Inr (fl ?q)" using le pos by (rule truediv_le)
  show ?thesis
    using r d fl_nonneg [OF q(1)] fl_le_one [OF q] fl_error [OF q] by simp
qed

theorem proportion_is_count_ratio_witness:
  "records_within example_miles (47, - 122) example_yelp (1 / 2) \<noteq> []
   \<and> radius_dollar_proportion example_miles (47, - 122) example_yelp (1 / 2) 2 = truediv 1 1
   \<and> radius_dollar_proportion example_miles (47, - 122) example_yelp (1 / 2) 2 = Inr 1"
proof -
  have ne: "records_within example_miles (47, - 122) example_yelp (1 / 2) \<noteq> []"
    by (simp add: ex_within_half)
  have t: "truediv 1 1 = Inr 1" by (simp add: truediv_def fl_one)
  have c: "length (filter (\<lambda>r. price r = 2)
                (records_within example_miles (47, - 122) example_yelp (1 / 2))) = 1"
    by (subst ex_within_half) (simp add: example_yelp_def)
  have n: "length (records_within example_miles (47, - 122) example_yelp (1 / 2)) = 1"
    by (simp add: ex_within_half)
  show ?thesis
    using proportion_is_count_ratio [OF ne, of 2] ne t
    by (simp add: c n)
qed

text \<open>
  Claim C4. The selection grows with the radius: the indices, and the rows, selected
  for a radius are among those selected for any larger radius.
\<close>

theorem distance_filter_monotone:
  "r \<le> r2 \<Longrightarrow>
   set (radius_scan miles location df r 0 []) \<subseteq> set (radius_scan miles location df r2 0 [])
   \<and> set (records_within miles location df r) \<subseteq> set (records_within miles location df r2)"
  by (auto simp: radius_scan_filter records_within_def)

theorem distance_filter_monotone_witness:
  "(1 / 2 :: rat) \<le> 1
   \<and> radius_scan example_miles (47, - 122) example_yelp (1 / 2) 0 [] = [0]
   \<and> radius_scan example_miles (47, - 122) example_yelp 1 0 [] = [0, 1]
   \<and> set (radius_scan example_miles (47, - 122) example_yelp (1 / 2) 0 [])
        \<subseteq> set (radius_scan example_miles (47, - 122) example_yelp 1 0 [])"
proof -
  have h: "(1 / 2 :: rat) \<le> 1" by simp
  show ?thesis
    using distance_filter_monotone [OF h, of example_miles "(47, - 122)" example_yelp]
      ex_scan_half ex_scan_one
    by simp
qed

text \<open>
  Claim C5. The loop selects exactly the rows of the frame whose distance from the point
  is at most the radius; a business at a distance equal to the radius is selected.
\<close>

theorem distance_filter_membership:
  "i \<in> set (radius_scan miles location df radius 0 []) \<longleftrightarrow>
     i < length df \<and> miles location (latitude (df ! i), longitude (df ! i)) \<le> radius"
  by (auto simp: radius_scan_filter)

theorem distance_filter_membership_witness:
  "example_miles (47, - 122) (latitude (example_yelp ! 0), longitude (example_yelp ! 0)) = 1 / 4
   \<and> 0 \<in> set (radius_scan example_miles (47, - 122) example_yelp (1 / 4) 0 [])
   \<and> 1 \<notin> set (radius_scan example_miles (47, - 122) example_yelp (1 / 4) 0 [])"
  using distance_filter_membership [of 0 example_miles "(47, - 122)" example_yelp "1 / 4"]
    distance_filter_membership [of 1 example_miles "(47, - 122)" example_yelp "1 / 4"]
  by (simp add: example_yelp_def example_miles_def)

text \<open>
  Claim C6. On a frame of points that has the eight metric columns, the metric loop ends
  without error, and for every point, each of the two radii and each of the four tiers
  the cell holds the proportion of the tier among the businesses of the whole frame
  \<open>yelp\<close> that lie within the radius of the point's coordinates: 0 when there is none,
  else the float nearest to the quotient of the two counts. The neighborhoods play no
  part: with every point and every business moved to any other neighborhood, the loop
  fills the same values.
\<close>

theorem metrics_use_all_businesses:
  assumes "has_metric_columns (gps_df nb)"
  shows "\<exists>nb' nb''.
           populate_metrics miles nb = Inr nb'
           \<and> populate_metrics miles (with_regions g h nb) = Inr nb''
           \<and> (\<forall>i < length (gps_df nb). \<forall>dollar \<in> {1, 2, 3, 4}. \<forall>radius \<in> {1 / 2, 1}.
                 radius_dollar (gps_df nb' ! i) (radius, dollar)
                   = Some (Number
                       (if records_within miles
                             (gps_latitude (gps_df nb ! i), gps_longitude (gps_df nb ! i))
                             (yelp nb) radius = []
                        then 0
                        else fl (of_nat (length (filter (\<lambda>r. price r = dollar)
                                   (records_within miles
                                      (gps_latitude (gps_df nb ! i), gps_longitude (gps_df nb ! i))
                                      (yelp nb) radius)))
                                 / of_nat (length
                                   (records_within miles
                                      (gps_latitude (gps_df nb ! i), gps_longitude (gps_df nb ! i))
                                      (yelp nb) radius)))))
                 \<and> radius_dollar (gps_df nb'' ! i) (radius, dollar)
                     = radius_dollar (gps_df nb' ! i) (radius, dollar))"
proof -
  let ?Z = "\<lambda>i. {(i, dollar, radius) | dollar radius.
                   dollar \<in> set [1, 2, 3, 4] \<and> radius \<in> set [1 / 2, 1 :: rat]}"
  let ?share = "\<lambda>i radius dollar. tier_share (records_within miles
      (gps_latitude (gps_df nb ! i), gps_longitude (gps_df nb ! i)) (yelp nb) radius) dollar"
  obtain nb' where a: "populate_metrics miles nb = Inr nb'"
      and a': "\<forall>i \<in> set [0..<length (gps_df nb)]. \<forall>z \<in> ?Z i. cell_filled miles nb nb' z"
    using populate_metrics_fills [OF assms, of miles] by blast
  let ?nb = "with_regions g h nb"
  have len: "length (gps_df ?nb) = length (gps_df nb)" by (simp add: with_regions_def)
  obtain nb'' where b: "populate_metrics miles ?nb = Inr nb''"
      and b': "\<forall>i \<in> set [0..<length (gps_df ?nb)]. \<forall>z \<in> ?Z i. cell_filled miles ?nb nb'' z"
    using populate_metrics_fills [OF with_regions_columns [OF assms], of miles g h] by blast
  have "\<forall>i < length (gps_df nb). \<forall>dollar \<in> {1, 2, 3, 4}. \<forall>radius \<in> {1 / 2, 1}.
          radius_dollar (gps_df nb' ! i) (radius, dollar) = Some (Number (?share i radius dollar))
          \<and> radius_dollar (gps_df nb'' ! i) (radius, dollar)
              = radius_dollar (gps_df nb' ! i) (radius, dollar)"
  proof (intro allI impI ballI)
    fix i and dollar :: int and radius :: rat
    assume i: "i < length (gps_df nb)" and d: "dollar \<in> {1, 2, 3, 4}" and r: "radius \<in> {1 / 2, 1}"
    have m: "i \<in> set [0..<length (gps_df nb)]" using i by simp
    have z: "(i, dollar, radius) \<in> ?Z i" using d r by simp
    have "cell_filled miles nb nb' (i, dollar, radius)" using a' m z by blast
    then have p: "radius_dollar (gps_df nb' ! i) (radius, dollar)
                    = Some (Number (?share i radius dollar))"
      by (simp add: cell_filled_def)
    have "cell_filled miles ?nb nb'' (i, dollar, radius)" using b' m z len by simp
    then have q: "radius_dollar (gps_df nb'' ! i) (radius, dollar)
                    = Some (Number (?share i radius dollar))"
      using i by (simp add: cell_filled_def with_regions_share)
    show "radius_dollar (gps_df nb' ! i) (radius, dollar) = Some (Number (?share i radius dollar))
          \<and> radius_dollar (gps_df nb'' ! i) (radius, dollar)
              = radius_dollar (gps_df nb' ! i) (radius, dollar)"
      using p q by simp
  qed
  then show ?thesis using a b unfolding tier_share_def by blast
qed

theorem metrics_use_all_businesses_witness:
  "has_metric_columns (gps_df example_notebook)
   \<and> gps_neighborhood (gps_df example_notebook ! 0) = ''Interbay''
   \<and> map cra example_yelp = [''Ballard'', ''Fremont'', ''Ballard'']
   \<and> (\<exists>nb' nb''.
         populate_metrics example_miles example_notebook = Inr nb'
         \<and> populate_metrics example_miles
              (with_regions (\<lambda>r. ''Ballard'') (\<lambda>r. ''Georgetown'') example_notebook) = Inr nb''
         \<and> radius_dollar (gps_df nb' ! 0) (1 / 2, 2) = Some (Number 1)
         \<and> radius_dollar (gps_df nb' ! 0) (1, 1) = Some (Number 0)
         \<and> radius_dollar (gps_df nb'' ! 0) (1 / 2, 2) = Some (Number 1)
         \<and> radius_dollar (gps_df nb'' ! 0) (1, 1) = Some (Number 0))"
proof -
  obtain nb' nb'' where r:
      "populate_metrics example_miles example_notebook = Inr nb'"
      "populate_metrics example_miles
         (with_regions (\<lambda>r. ''Ballard'') (\<lambda>r. ''Georgetown'') example_notebook) = Inr nb''"
      "\<forall>i < length (gps_df example_notebook). \<forall>dollar \<in> {1, 2, 3, 4}. \<forall>radius \<in> {1 / 2, 1}.
                 radius_dollar (gps_df nb' ! i) (radius, dollar)
                   = Some (Number
                       (if records_within example_miles
                             (gps_latitude (gps_df example_notebook ! i),
                              gps_longitude (gps_df example_notebook ! i))
                             (yelp example_notebook) radius = []
                        then 0
                        else fl (of_nat (length (filter (\<lambda>r. price r = dollar)
                                   (records_within example_miles
                                      (gps_latitude (gps_df example_notebook ! i),
                                       gps_longitude (gps_df example_notebook ! i))
                                      (yelp example_notebook) radius)))
                                 / of_nat (length
                                   (records_within example_miles
                                      (gps_latitude (gps_df example_notebook ! i),
                                       gps_longitude (gps_df example_notebook ! i))
                                      (yelp example_notebook) radius)))))
                 \<and> radius_dollar (gps_df nb'' ! i) (radius, dollar)
                     = radius_dollar (gps_df nb' ! i) (radius, dollar)"
    using metrics_use_all_businesses
      [OF ex_gps_columns, of example_miles "\<lambda>r. ''Ballard''" "\<lambda>r. ''Georgetown''"]
    by blast
  have c1: "radius_dollar (gps_df nb' ! 0) (1 / 2, 2) = Some (Number 1)
            \<and> radius_dollar (gps_df nb'' ! 0) (1 / 2, 2) = radius_dollar (gps_df nb' ! 0) (1 / 2, 2)"
    using r(3) [folded tier_share_def, rule_format, of 0 2 "1 / 2"]
    by (simp add: ex_point ex_share_half)
  have c2: "radius_dollar (gps_df nb' ! 0) (1, 1) = Some (Number 0)
            \<and> radius_dollar (gps_df nb'' ! 0) (1, 1) = radius_dollar (gps_df nb' ! 0) (1, 1)"
    using r(3) [folded tier_share_def, rule_format, of 0 1 1]
    by (simp add: ex_point ex_share_one)
  have "map cra example_yelp = [''Ballard'', ''Fremont'', ''Ballard'']"
    by (simp add: example_yelp_def)
  then show ?thesis using r(1,2) c1 c2 ex_gps_columns ex_point(4) by auto
qed

text \<open>
  Claim C7. When the neighborhood of some sampled point has no row in \<open>seattle_rent\<close>,
  the join loop ends with the \<^verbatim>\<open>ValueError\<close> of \<^verbatim>\<open>item()\<close> and hands no frame
  on: the exception ends the cell, and the export after it does not run.
\<close>

theorem unmatched_region_raises:
  assumes "i < length (gps_df nb)"
    and "\<forall>r \<in> set (seattle_rent nb). neighborhood r \<noteq> gps_neighborhood (gps_df nb ! i)"
  shows "demographics_join nb = Inl ValueError"
proof -
  have u: "filter (\<lambda>r. neighborhood r = gps_neighborhood (gps_df nb ! i)) (seattle_rent nb) = []"
    using assms(2) by (simp add: filter_empty_conv)
  have "for_each [0..<length (gps_df nb)] demographics_step nb = Inl ValueError"
  proof (rule for_each_raises [where P = "same_points nb" and x = i])
    show "same_points nb nb" by (simp add: same_points_def)
    show "i \<in> set [0..<length (gps_df nb)]" using assms(1) by simp
  next
    fix y s
    assume "y \<in> set [0..<length (gps_df nb)]" and "same_points nb s"
    then show "(\<exists>s'. demographics_step y s = Inr s' \<and> same_points nb s')
         \<or> demographics_step y s = Inl ValueError"
      by (intro demographics_step_cases) simp_all
  next
    fix s
    assume "same_points nb s"
    then show "demographics_step i s = Inl ValueError"
      using assms(1) u by (rule demographics_step_unmatched)
  qed
  then show ?thesis by (simp add: demographics_join_def)
qed

theorem unmatched_region_raises_witness:
  "(1 :: nat) < length (gps_df example_unmatched)
   \<and> gps_neighborhood (gps_df example_unmatched ! 1) = ''Georgetown''
   \<and> map neighborhood (seattle_rent example_unmatched) = [''Ballard'', ''Interbay'']
   \<and> demographics_join example_unmatched = Inl ValueError"
proof -
  have i: "(1 :: nat) < length (gps_df example_unmatched)" by (simp add: ex_unmatched)
  have u: "\<forall>r \<in> set (seattle_rent example_unmatched).
            neighborhood r \<noteq> gps_neighborhood (gps_df example_unmatched ! 1)"
    by (simp add: example_unmatched_def example_gps_def example_seattle_def)
  show ?thesis
    using unmatched_region_raises [OF i u] i ex_unmatched(2,3) by simp
qed

text \<open>
  Claim C9. A call of \<open>radius_dollar_proportion\<close>, run statement by statement with its
  four parameters bound as locals, returns the value that the function
  \<open>radius_dollar_proportion\<close> gives for the four arguments, whatever the globals of the
  notebook bind (every name the body reads is a parameter or a local assigned before),
  and it leaves the globals as it found them. So two calls with equal arguments return
  equal values.
\<close>

theorem radius_dollar_proportion_deterministic:
  "\<exists>p. radius_dollar_proportion miles location df radius t = Inr p
       \<and> call_radius_dollar_proportion miles location df radius t g = Inr (p, g)
       \<and> call_radius_dollar_proportion miles location df radius t g' = Inr (p, g')"
proof -
  obtain p where p: "radius_dollar_proportion miles location df radius t = Inr p"
      "call_radius_dollar_proportion miles location df radius t g = Inr (p, g)"
    using call_is_function by blast
  obtain q where q: "radius_dollar_proportion miles location df radius t = Inr q"
      "call_radius_dollar_proportion miles location df radius t g' = Inr (q, g')"
    using call_is_function by blast
  have "q = p" using p(1) q(1) by simp
  then show ?thesis using p q by blast
qed

theorem radius_dollar_proportion_deterministic_witness:
  "call_radius_dollar_proportion example_miles (47, - 122) example_yelp 1 2 example_globals
     = Inr (1, example_globals)
   \<and> call_radius_dollar_proportion example_miles (47, - 122) example_yelp 1 2 other_globals
     = Inr (1, other_globals)"
  using radius_dollar_proportion_deterministic
    [of example_miles "(47, - 122)" example_yelp 1 2 example_globals other_globals]
    ex_rdp_one
  by simp

text \<open>
  Claim C10. A call for a tier whose column the frame does not have adds the column to
  every row, with NaN in the rows of the other neighborhoods, so cells outside the
  given neighborhood change (\<open>dollar_rating_adds_column\<close> below, at tier 7). What
  holds: a call of \<open>dollar_rating\<close> for a tier whose column the frame has leaves
  \<open>yelp_df\<close> as it is and changes in \<open>seattle_df\<close> only the cells of that tier's
  column in the rows of the given neighborhood: the number of rows, the fixed columns,
  the other tiers' columns and every row of another neighborhood stay the same.
\<close>

theorem dollar_rating_frame:
  assumes "list_all (\<lambda>r. tier_dollar r t \<noteq> None) seattle_df"
  shows "\<exists>seattle_df'. dollar_rating seattle_df yelp_df nbhd t = Inr (seattle_df', yelp_df)
         \<and> length seattle_df' = length seattle_df
         \<and> (\<forall>i < length seattle_df.
               neighborhood (seattle_df' ! i) = neighborhood (seattle_df ! i)
               \<and> median_rent (seattle_df' ! i) = median_rent (seattle_df ! i)
               \<and> median_home_value (seattle_df' ! i) = median_home_value (seattle_df ! i)
               \<and> median_income (seattle_df' ! i) = median_income (seattle_df ! i)
               \<and> (\<forall>t'. t' \<noteq> t \<longrightarrow>
                     tier_dollar (seattle_df' ! i) t' = tier_dollar (seattle_df ! i) t')
               \<and> (neighborhood (seattle_df ! i) \<noteq> nbhd \<longrightarrow>
                     seattle_df' ! i = seattle_df ! i))"
proof -
  define p where "p = tier_share (filter (\<lambda>r. cra r = nbhd) yelp_df) t"
  let ?s = "map (\<lambda>r. if neighborhood r = nbhd
                      then r\<lparr>tier_dollar := (tier_dollar r)(t \<mapsto> Number p)\<rparr> else r) seattle_df"
  have "dollar_rating seattle_df yelp_df nbhd t = Inr (?s, yelp_df)"
    using assms by (simp add: dollar_rating_result loc_set_dollar_present p_def)
  moreover have "length ?s = length seattle_df" by simp
  moreover have "\<forall>i < length seattle_df.
               neighborhood (?s ! i) = neighborhood (seattle_df ! i)
               \<and> median_rent (?s ! i) = median_rent (seattle_df ! i)
               \<and> median_home_value (?s ! i) = median_home_value (seattle_df ! i)
               \<and> median_income (?s ! i) = median_income (seattle_df ! i)
               \<and> (\<forall>t'. t' \<noteq> t \<longrightarrow> tier_dollar (?s ! i) t' = tier_dollar (seattle_df ! i) t')
               \<and> (neighborhood (seattle_df ! i) \<noteq> nbhd \<longrightarrow> ?s ! i = seattle_df ! i)"
    by simp
  ultimately show ?thesis by blast
qed

theorem dollar_rating_frame_witness:
  "list_all (\<lambda>r. tier_dollar r 2 \<noteq> None) example_seattle
   \<and> (\<exists>s. dollar_rating example_seattle example_yelp ''Ballard'' 2 = Inr (s, example_yelp)
          \<and> length s = 2
          \<and> s ! 1 = example_seattle ! 1
          \<and> tier_dollar (s ! 0) 1 = tier_dollar (example_seattle ! 0) 1)"
proof -
  have n: "neighborhood (example_seattle ! 1) \<noteq> ''Ballard''" "length example_seattle = 2"
    by (simp_all add: example_seattle_def)
  show ?thesis
    using dollar_rating_frame [OF ex_columns_2, of example_yelp "''Ballard''"] ex_columns_2 n
    by fastforce
qed

theorem dollar_rating_adds_column:
  "map neighborhood example_seattle = [''Ballard'', ''Interbay'']
   \<and> tier_column 7 example_seattle = [None, None]
   \<and> dollar_rating_column example_seattle example_yelp ''Ballard'' 7
       = Inr [Some (Number 0), Some NaN]"
proof -
  have "loc_set_dollar example_seattle
          (filter (\<lambda>i. neighborhood (example_seattle ! i) = ''Ballard'') [0..<length example_seattle])
          7 0
        = [(example_seattle ! 0)\<lparr>tier_dollar := (tier_dollar (example_seattle ! 0))(7 \<mapsto> Number 0)\<rparr>,
           (example_seattle ! 1)\<lparr>tier_dollar := (tier_dollar (example_seattle ! 1))(7 \<mapsto> NaN)\<rparr>]"
    by (simp add: loc_set_dollar_def example_seattle_def upt_conv_Cons)
  then have "dollar_rating_column example_seattle example_yelp ''Ballard'' 7
       = Inr [Some (Number 0), Some NaN]"
    by (simp add: dollar_rating_column_def dollar_rating_result ex_ballard_share tier_column_def)
  moreover have "map neighborhood example_seattle = [''Ballard'', ''Interbay'']"
    by (simp add: example_seattle_def)
  moreover have "tier_column 7 example_seattle = [None, None]"
    by (simp add: tier_column_def example_seattle_def)
  ultimately show ?thesis by simp
qed

end
